theory Spec2Isabelle
  imports Complex_Main "HOL-Library.AList" "HOL-Library.Multiset"
begin

section \<open>Python values and errors\<close>

text \<open>
  The feature dictionaries of \<^verbatim>\<open>data_collector.py\<close> hold values of mixed type: the empty
  string \<^verbatim>\<open>''\<close> for "unset", integers, floats, strings and (in rows handed to
  \<^verbatim>\<open>write_csv\<close>) possibly \<^verbatim>\<open>None\<close>. Floats are modelled by the exact decimal value they
  denote (a \<open>real\<close>); text is a list of 8-bit characters and is taken to be ASCII, as the
  output of the probing tools is.
\<close>

datatype pyval = NoneV | StrV string | IntV int | FloatV real

datatype py_error = ValueError | ZeroDivisionError | KeyError | TypeError | Exception string

text \<open>Truth value of a Python object, as \<^verbatim>\<open>if x\<close>, \<^verbatim>\<open>not x\<close> and \<^verbatim>\<open>x and y\<close> read it.\<close>

fun py_truthy :: "pyval \<Rightarrow> bool" where
  "py_truthy NoneV = False"
| "py_truthy (StrV s) = (s \<noteq> [])"
| "py_truthy (IntV i) = (i \<noteq> 0)"
| "py_truthy (FloatV x) = (x \<noteq> 0)"

text \<open>\<^verbatim>\<open>if not output\<close> on an \<^verbatim>\<open>Optional[str]\<close>: true for \<^verbatim>\<open>None\<close> and for the empty string.\<close>

fun no_output :: "string option \<Rightarrow> bool" where
  "no_output None = True"
| "no_output (Some s) = (s = [])"

text \<open>True division of two integers; Python raises on a zero divisor.\<close>

definition py_truediv :: "int \<Rightarrow> int \<Rightarrow> py_error + real" where
  "py_truediv a b = (if b = 0 then Inl ZeroDivisionError else Inr (real_of_int a / real_of_int b))"

text \<open>\<^verbatim>\<open>a == b\<close>: numbers compare by value across \<^verbatim>\<open>int\<close> and \<^verbatim>\<open>float\<close>.\<close>

fun py_eq :: "pyval \<Rightarrow> pyval \<Rightarrow> bool" where
  "py_eq NoneV NoneV = True"
| "py_eq (StrV a) (StrV b) = (a = b)"
| "py_eq (IntV a) (IntV b) = (a = b)"
| "py_eq (FloatV a) (FloatV b) = (a = b)"
| "py_eq (IntV a) (FloatV b) = (real_of_int a = b)"
| "py_eq (FloatV a) (IntV b) = (a = real_of_int b)"
| "py_eq _ _ = False"

text \<open>\<^verbatim>\<open>a or b\<close>.\<close>

definition py_or :: "pyval \<Rightarrow> pyval \<Rightarrow> pyval" where
  "py_or a b = (if py_truthy a then a else b)"

text \<open>Sequencing of computations that may raise: the first error ends the computation.\<close>

definition bind_err :: "py_error + 'a \<Rightarrow> ('a \<Rightarrow> py_error + 'b) \<Rightarrow> py_error + 'b" where
  "bind_err x f = (case x of Inl err \<Rightarrow> Inl err | Inr v \<Rightarrow> f v)"

text \<open>
  A dictionary with string keys, as an association list in insertion order:
  \<^verbatim>\<open>d[k] = v\<close>, \<^verbatim>\<open>d.update(e)\<close>, \<^verbatim>\<open>d.get(k, default)\<close> and \<^verbatim>\<open>d[k]\<close>, which raises
  \<^verbatim>\<open>KeyError\<close> on a missing key.
\<close>

type_synonym dict = "(string \<times> pyval) list"

definition dict_set :: "dict \<Rightarrow> string \<Rightarrow> pyval \<Rightarrow> dict" where
  "dict_set d k v = AList.update k v d"

definition dict_update :: "dict \<Rightarrow> dict \<Rightarrow> dict" where
  "dict_update d e = fold (\<lambda>kv acc. AList.update (fst kv) (snd kv) acc) e d"

definition dict_get :: "dict \<Rightarrow> string \<Rightarrow> pyval \<Rightarrow> pyval" where
  "dict_get d k dflt = (case map_of d k of Some v \<Rightarrow> v | None \<Rightarrow> dflt)"

definition dict_item :: "dict \<Rightarrow> string \<Rightarrow> py_error + pyval" where
  "dict_item d k = (case map_of d k of Some v \<Rightarrow> Inr v | None \<Rightarrow> Inl KeyError)"

section \<open>Characters and text\<close>

definition newline :: char where
  "newline = CHR 0x0A"

definition is_digit :: "char \<Rightarrow> bool" where
  "is_digit c = (c \<in> set ''0123456789'')"

text \<open>
  Whitespace as \<^verbatim>\<open>\s\<close> reads it on ASCII text: space, \<^verbatim>\<open>\t \n \v \f \r\<close> and the four
  separators \<^verbatim>\<open>\x1c\<close> to \<^verbatim>\<open>\x1f\<close>.
\<close>

definition is_space :: "char \<Rightarrow> bool" where
  "is_space c = (c \<in> set [CHR '' '', CHR 0x09, CHR 0x0A, CHR 0x0B, CHR 0x0C, CHR 0x0D,
                            CHR 0x1C, CHR 0x1D, CHR 0x1E, CHR 0x1F])"

text \<open>\<^verbatim>\<open>str.lower()\<close> on ASCII text.\<close>

definition lower_char :: "char \<Rightarrow> char" where
  "lower_char c =
     (case map_of (zip ''ABCDEFGHIJKLMNOPQRSTUVWXYZ'' ''abcdefghijklmnopqrstuvwxyz'') c of
        Some l \<Rightarrow> l
      | None \<Rightarrow> c)"

definition lower :: "string \<Rightarrow> string" where
  "lower s = map lower_char s"

text \<open>\<^verbatim>\<open>needle in haystack\<close> on strings.\<close>

fun py_in :: "string \<Rightarrow> string \<Rightarrow> bool" where
  "py_in needle [] = (needle = [])"
| "py_in needle (x # xs) = (take (length needle) (x # xs) = needle \<or> py_in needle xs)"

text \<open>The value of a run of decimal digits, most significant first.\<close>

definition digit_val :: "char \<Rightarrow> int" where
  "digit_val c = of_char c - 48"

definition digits_val :: "string \<Rightarrow> int" where
  "digits_val ds = foldl (\<lambda>a c. 10 * a + digit_val c) 0 ds"

text \<open>
  \<^verbatim>\<open>int(s)\<close> where \<open>s\<close> is a group matched by \<^verbatim>\<open>\d+\<close>: never fails on such a string
  (the digit-count limit of recent interpreters aside).
\<close>

definition py_int :: "string \<Rightarrow> int" where
  "py_int ds = digits_val ds"

text \<open>
  \<^verbatim>\<open>float(s)\<close> on the strings the patterns below can hand to it, which consist of digits
  and dots only: digits with at most one dot and at least one digit are a number, anything
  else raises \<^verbatim>\<open>ValueError\<close>. (Signs, exponents and the like, which \<^verbatim>\<open>float\<close> would also
  read, cannot occur in such a group.)
\<close>

definition py_float :: "string \<Rightarrow> py_error + real" where
  "py_float s =
     (let ip = takeWhile is_digit s; rest = dropWhile is_digit s in
      case rest of
        [] \<Rightarrow> if ip = [] then Inl ValueError else Inr (real_of_int (digits_val ip))
      | c # fp \<Rightarrow>
          if c = CHR ''.'' \<and> list_all is_digit fp \<and> (ip \<noteq> [] \<or> fp \<noteq> [])
          then Inr (real_of_int (digits_val ip) + real_of_int (digits_val fp) / 10 ^ length fp)
          else Inl ValueError)"

text \<open>\<^verbatim>\<open>str(i)\<close> on an integer: its decimal digits, with a minus sign when negative.\<close>

function digits_of :: "int \<Rightarrow> string" where
  "digits_of n =
     (if n < 10 then [''0123456789'' ! nat n]
      else digits_of (n div 10) @ [''0123456789'' ! nat (n mod 10)])"
  by pat_completeness auto
termination
  by (relation "measure nat") auto

declare digits_of.simps [simp del]

definition str_int :: "int \<Rightarrow> string" where
  "str_int i = (if i < 0 then CHR ''-'' # digits_of (- i) else digits_of i)"

section \<open>The regular expressions of the parsers\<close>

text \<open>
  The parsers use \<^verbatim>\<open>re.search\<close> and \<^verbatim>\<open>re.findall\<close> with a handful of patterns. They are
  built from single-character classes, the repetitions \<^verbatim>\<open>*\<close>, \<^verbatim>\<open>+\<close>, \<^verbatim>\<open>?\<close> and \<^verbatim>\<open>*?\<close>
  of such a class, one capture group, the anchor \<^verbatim>\<open>^\<close> (under \<^verbatim>\<open>re.MULTILINE\<close>) and an
  alternation at top level. The matcher is the backtracking one of Python's \<^verbatim>\<open>re\<close>:
  leftmost start, alternatives in order, greedy repetitions longest first, lazy ones
  shortest first.
\<close>

datatype cclass =
    Lit char      \<comment> \<open>a literal character\<close>
  | Digit         \<comment> \<open>\<^verbatim>\<open>\d\<close>\<close>
  | Space         \<comment> \<open>\<^verbatim>\<open>\s\<close>\<close>
  | Dot           \<comment> \<open>\<^verbatim>\<open>.\<close>: anything but a newline\<close>
  | DigitDot      \<comment> \<open>\<^verbatim>\<open>[\d.]\<close>\<close>

datatype item =
    One cclass
  | Star cclass       \<comment> \<open>greedy \<^verbatim>\<open>*\<close>\<close>
  | Plus cclass       \<comment> \<open>greedy \<^verbatim>\<open>+\<close>\<close>
  | Opt cclass        \<comment> \<open>greedy \<^verbatim>\<open>?\<close>\<close>
  | LazyStar cclass   \<comment> \<open>\<^verbatim>\<open>*?\<close>\<close>
  | GOpen             \<comment> \<open>\<^verbatim>\<open>(\<close>\<close>
  | GClose            \<comment> \<open>\<^verbatim>\<open>)\<close>\<close>
  | Bol               \<comment> \<open>\<^verbatim>\<open>^\<close> under \<^verbatim>\<open>re.MULTILINE\<close>\<close>

text \<open>A pattern: its alternatives in order, and whether \<^verbatim>\<open>re.IGNORECASE\<close> is set.\<close>

record pattern =
  ignorecase :: bool
  alts :: "item list list"

definition lits :: "string \<Rightarrow> item list" where
  "lits s = map (\<lambda>c. One (Lit c)) s"

fun cmatch :: "bool \<Rightarrow> cclass \<Rightarrow> char \<Rightarrow> bool" where
  "cmatch ic (Lit c) x = (if ic then lower_char x = lower_char c else x = c)"
| "cmatch ic Digit x = is_digit x"
| "cmatch ic Space x = is_space x"
| "cmatch ic Dot x = (x \<noteq> newline)"
| "cmatch ic DigitDot x = (is_digit x \<or> x = CHR ''.'')"

text \<open>
  A match is reported as the text left after it, the text left where the group opened and
  the text left where it closed.
\<close>

type_synonym mres = "string \<times> string option \<times> string option"

definition set_open :: "string \<Rightarrow> mres \<Rightarrow> mres" where
  "set_open s m = (case m of (e, go, gc) \<Rightarrow> (e, Some s, gc))"

definition set_close :: "string \<Rightarrow> mres \<Rightarrow> mres" where
  "set_close s m = (case m of (e, go, gc) \<Rightarrow> (e, go, Some s))"

text \<open>
  \<open>rmatch ic items bol s\<close>: match the items at the start of \<open>s\<close>; \<open>bol\<close> says whether this
  position is the start of the text or follows a newline.
\<close>

fun rmatch :: "bool \<Rightarrow> item list \<Rightarrow> bool \<Rightarrow> string \<Rightarrow> mres option" where
  "rmatch ic [] bol s = Some (s, None, None)"
| "rmatch ic (GOpen # r) bol s = map_option (set_open s) (rmatch ic r bol s)"
| "rmatch ic (GClose # r) bol s = map_option (set_close s) (rmatch ic r bol s)"
| "rmatch ic (Bol # r) bol s = (if bol then rmatch ic r bol s else None)"
| "rmatch ic (One c # r) bol [] = None"
| "rmatch ic (One c # r) bol (x # xs) =
     (if cmatch ic c x then rmatch ic r (x = newline) xs else None)"
| "rmatch ic (Plus c # r) bol [] = None"
| "rmatch ic (Plus c # r) bol (x # xs) =
     (if cmatch ic c x then rmatch ic (Star c # r) (x = newline) xs else None)"
| "rmatch ic (Star c # r) bol [] = rmatch ic r bol []"
| "rmatch ic (Star c # r) bol (x # xs) =
     (if cmatch ic c x
      then (case rmatch ic (Star c # r) (x = newline) xs of
              Some m \<Rightarrow> Some m
            | None \<Rightarrow> rmatch ic r bol (x # xs))
      else rmatch ic r bol (x # xs))"
| "rmatch ic (Opt c # r) bol [] = rmatch ic r bol []"
| "rmatch ic (Opt c # r) bol (x # xs) =
     (if cmatch ic c x
      then (case rmatch ic r (x = newline) xs of
              Some m \<Rightarrow> Some m
            | None \<Rightarrow> rmatch ic r bol (x # xs))
      else rmatch ic r bol (x # xs))"
| "rmatch ic (LazyStar c # r) bol [] = rmatch ic r bol []"
| "rmatch ic (LazyStar c # r) bol (x # xs) =
     (case rmatch ic r bol (x # xs) of
        Some m \<Rightarrow> Some m
      | None \<Rightarrow> if cmatch ic c x then rmatch ic (LazyStar c # r) (x = newline) xs else None)"

fun match_alts :: "bool \<Rightarrow> item list list \<Rightarrow> bool \<Rightarrow> string \<Rightarrow> mres option" where
  "match_alts ic [] bol s = None"
| "match_alts ic (a # as) bol s =
     (case rmatch ic a bol s of Some m \<Rightarrow> Some m | None \<Rightarrow> match_alts ic as bol s)"

text \<open>\<^verbatim>\<open>re.search\<close>: the match at the leftmost position that has one.\<close>

fun search_from :: "pattern \<Rightarrow> bool \<Rightarrow> string \<Rightarrow> mres option" where
  "search_from p bol [] = match_alts (ignorecase p) (alts p) bol []"
| "search_from p bol (x # xs) =
     (case match_alts (ignorecase p) (alts p) bol (x # xs) of
        Some m \<Rightarrow> Some m
      | None \<Rightarrow> search_from p (x = newline) xs)"

definition re_search :: "pattern \<Rightarrow> string \<Rightarrow> mres option" where
  "re_search p s = search_from p True s"

text \<open>\<^verbatim>\<open>match.group(1)\<close>.\<close>

fun group1 :: "mres \<Rightarrow> string" where
  "group1 (e, Some go, Some gc) = take (length go - length gc) go"
| "group1 (e, _, _) = []"

text \<open>
  \<^verbatim>\<open>len(re.findall(...))\<close>: the number of matches found scanning left to right, each
  search resuming where the previous match ended. None of the patterns used can match
  the empty string; should a match be empty the scan moves on by one character.
\<close>

fun findall_from :: "pattern \<Rightarrow> bool \<Rightarrow> string \<Rightarrow> nat" where
  "findall_from p bol [] =
     (case match_alts (ignorecase p) (alts p) bol [] of Some m \<Rightarrow> 1 | None \<Rightarrow> 0)"
| "findall_from p bol (x # xs) =
     (case match_alts (ignorecase p) (alts p) bol (x # xs) of
        None \<Rightarrow> findall_from p (x = newline) xs
      | Some m \<Rightarrow>
          (let e = fst m in
           if length e < length (x # xs)
           then 1 + findall_from p (last (take (length (x # xs) - length e) (x # xs)) = newline) e
           else 1 + findall_from p (x = newline) xs))"

definition findall_count :: "pattern \<Rightarrow> string \<Rightarrow> nat" where
  "findall_count p s = findall_from p True s"

section \<open>The protocol parsers\<close>

subsection \<open>ICMP: \<^verbatim>\<open>parse_ping\<close>\<close>

text \<open>\<^verbatim>\<open>r'ttl=(\d+)'\<close> with \<^verbatim>\<open>re.IGNORECASE\<close>.\<close>

definition ttl_pattern :: pattern where
  "ttl_pattern = \<lparr>ignorecase = True, alts = [lits ''ttl='' @ [GOpen, Plus Digit, GClose]]\<rparr>"

text \<open>\<^verbatim>\<open>r'(\d+\.?\d*)%\s+packet loss'\<close> with \<^verbatim>\<open>re.IGNORECASE\<close>.\<close>

definition loss_pattern :: pattern where
  "loss_pattern = \<lparr>ignorecase = True, alts =
     [[GOpen, Plus Digit, Opt (Lit (CHR ''.'')), Star Digit, GClose, One (Lit (CHR ''%'')), Plus Space]
      @ lits ''packet loss'']\<rparr>"

text \<open>
  \<^verbatim>\<open>r'rtt.*?=\s*[\d.]+/([\d.]+)/'\<close> and \<^verbatim>\<open>r'round-trip.*?=\s*[\d.]+/([\d.]+)/'\<close>, both with
  \<^verbatim>\<open>re.IGNORECASE\<close>.
\<close>

definition rtt_tail :: "item list" where
  "rtt_tail = [LazyStar Dot, One (Lit (CHR ''='')), Star Space, Plus DigitDot, One (Lit (CHR ''/'')),
               GOpen, Plus DigitDot, GClose, One (Lit (CHR ''/''))]"

definition rtt_patterns :: "pattern list" where
  "rtt_patterns = [\<lparr>ignorecase = True, alts = [lits ''rtt'' @ rtt_tail]\<rparr>,
                   \<lparr>ignorecase = True, alts = [lits ''round-trip'' @ rtt_tail]\<rparr>]"

definition ping_defaults :: dict where
  "ping_defaults = [(''avg_latency'', StrV []), (''packet_loss'', StrV []), (''ttl_return'', StrV []),
                    (''icmp_reachable'', IntV 0)]"

text \<open>
  The loop over \<^verbatim>\<open>rtt_patterns\<close> (lines 117 to 120): the first pattern that matches sets
  \<^verbatim>\<open>avg_latency\<close> and ends the loop; \<^verbatim>\<open>float\<close> may raise.
\<close>

fun rtt_loop :: "pattern list \<Rightarrow> string \<Rightarrow> dict \<Rightarrow> py_error + dict" where
  "rtt_loop [] output features = Inr features"
| "rtt_loop (p # ps) output features =
     (case re_search p output of
        Some m \<Rightarrow> bind_err (py_float (group1 m))
                   (\<lambda>v. Inr (dict_set features ''avg_latency'' (FloatV v)))
      | None \<Rightarrow> rtt_loop ps output features)"

definition parse_ping :: "string option \<Rightarrow> py_error + dict" where
  "parse_ping output =
     (case output of
        None \<Rightarrow> Inr ping_defaults
      | Some out \<Rightarrow>
          if out = [] then Inr ping_defaults
          else
            let features = ping_defaults;
                features =
                  (if py_in ''bytes from'' (lower out) \<or> py_in ''icmp_seq='' (lower out)
                   then (let features = dict_set features ''icmp_reachable'' (IntV 1) in
                         (case re_search ttl_pattern out of
                            Some m \<Rightarrow> dict_set features ''ttl_return'' (IntV (py_int (group1 m)))
                          | None \<Rightarrow> features))
                   else features)
            in bind_err
                 (case re_search loss_pattern out of
                    Some m \<Rightarrow> bind_err (py_float (group1 m))
                               (\<lambda>v. Inr (dict_set features ''packet_loss'' (FloatV v)))
                  | None \<Rightarrow> Inr features)
                 (\<lambda>features. rtt_loop rtt_patterns out features))"

subsection \<open>Port scan: \<^verbatim>\<open>parse_nmap\<close>\<close>

text \<open>\<^verbatim>\<open>r'\d+/tcp\s+filtered'\<close> and \<^verbatim>\<open>r'scanned in ([\d.]+) seconds'\<close>, with \<^verbatim>\<open>re.IGNORECASE\<close>.\<close>

definition filtered_pattern :: pattern where
  "filtered_pattern = \<lparr>ignorecase = True, alts =
     [[Plus Digit] @ lits ''/tcp'' @ [Plus Space] @ lits ''filtered'']\<rparr>"

definition scan_time_pattern :: pattern where
  "scan_time_pattern = \<lparr>ignorecase = True, alts =
     [lits ''scanned in '' @ [GOpen, Plus DigitDot, GClose] @ lits '' seconds'']\<rparr>"

definition parse_nmap :: "string option \<Rightarrow> py_error + dict" where
  "parse_nmap output =
     (let features = [(''filtered_ports_count'', IntV 0), (''scan_time'', StrV [])] in
      (case output of
         None \<Rightarrow> Inr features
       | Some out \<Rightarrow>
          if out = [] then Inr features
          else
            let features = dict_set features ''filtered_ports_count''
                             (IntV (int (findall_count filtered_pattern out)))
            in (case re_search scan_time_pattern out of
                  Some m \<Rightarrow> bind_err (py_float (group1 m))
                             (\<lambda>v. Inr (dict_set features ''scan_time'' (FloatV v)))
                | None \<Rightarrow> Inr features)))"

subsection \<open>SYN and RST tests: \<^verbatim>\<open>parse_hping3\<close>, \<^verbatim>\<open>parse_hping3_rst\<close>\<close>

text \<open>
  \<^verbatim>\<open>r'flags=|len=\d+'\<close> with \<^verbatim>\<open>re.IGNORECASE\<close>; \<^verbatim>\<open>r'^\s*\d+\s+bytes from'\<close> with
  \<^verbatim>\<open>re.MULTILINE\<close>; \<^verbatim>\<open>r'flags=.*R'\<close> with \<^verbatim>\<open>re.IGNORECASE\<close>.
\<close>

definition reply_pattern :: pattern where
  "reply_pattern = \<lparr>ignorecase = True, alts = [lits ''flags='', lits ''len='' @ [Plus Digit]]\<rparr>"

definition bytes_from_pattern :: pattern where
  "bytes_from_pattern = \<lparr>ignorecase = False, alts =
     [[Bol, Star Space, Plus Digit, Plus Space] @ lits ''bytes from'']\<rparr>"

definition rst_pattern :: pattern where
  "rst_pattern = \<lparr>ignorecase = True, alts = [lits ''flags='' @ [Star Dot, One (Lit (CHR ''R''))]]\<rparr>"

definition parse_hping3 :: "string option \<Rightarrow> int \<Rightarrow> py_error + real" where
  "parse_hping3 output sent_count =
     (case output of
        None \<Rightarrow> Inr 0
      | Some out \<Rightarrow>
          if out = [] then Inr 0
          else
            let reply_count = findall_count reply_pattern out;
                reply_count = (if reply_count = 0 then findall_count bytes_from_pattern out
                               else reply_count)
            in bind_err (if sent_count > 0 then py_truediv (int reply_count) sent_count else Inr 0)
                 (\<lambda>ratio. Inr (max 0 (min 1 ratio))))"

definition parse_hping3_rst :: "string option \<Rightarrow> int \<Rightarrow> py_error + real" where
  "parse_hping3_rst output sent_count =
     (case output of
        None \<Rightarrow> Inr 0
      | Some out \<Rightarrow>
          if out = [] then Inr 0
          else
            let rst_count = findall_count rst_pattern out
            in bind_err (if sent_count > 0 then py_truediv (int rst_count) sent_count else Inr 0)
                 (\<lambda>ratio. Inr (max 0 (min 1 ratio))))"

subsection \<open>HTTP headers: \<^verbatim>\<open>parse_curl\<close>\<close>

definition parse_curl :: "string option \<Rightarrow> dict" where
  "parse_curl output =
     (case output of
        None \<Rightarrow> [(''header_modified'', IntV 0)]
      | Some out \<Rightarrow>
          if out = [] then [(''header_modified'', IntV 0)]
          else
            let proxy_headers = [''via:'', ''x-cache:'', ''x-proxy'', ''proxy-agent:'', ''x-forwarded''];
                header_modified = list_ex (\<lambda>header. py_in header (lower out)) proxy_headers
            in [(''header_modified'', IntV (if header_modified then 1 else 0))])"

section \<open>The probe executor: \<^verbatim>\<open>run_command\<close>\<close>

text \<open>
  What \<^verbatim>\<open>subprocess.run(cmd, capture_output=True, text=True, timeout=timeout)\<close> can do:
  return a completed process with its exit code, standard output and standard error,
  raise \<^verbatim>\<open>TimeoutExpired\<close>, or raise some other exception (the tool cannot be started, for
  instance). The operating system is a function from the command line and the time
  budget to that outcome.
\<close>

datatype proc_result =
    Completed (returncode: int) (stdout: string) (stderr: string)
  | TimeoutExpired
  | Raised py_error

type_synonym subprocess = "string list \<Rightarrow> int \<Rightarrow> proc_result"

text \<open>The \<^verbatim>\<open>debug\<close> flag only adds diagnostic prints, which are not part of the result.\<close>

definition run_command :: "subprocess \<Rightarrow> string list \<Rightarrow> int \<Rightarrow> bool \<Rightarrow> string option" where
  "run_command run cmd timeout debug =
     (case run cmd timeout of
        Completed rc out err \<Rightarrow> Some (if rc = 0 then out else out @ err)
      | TimeoutExpired \<Rightarrow> None
      | Raised e \<Rightarrow> None)"

section \<open>The feature aggregator: \<^verbatim>\<open>collect_features\<close>\<close>

definition FEATURE_COLUMNS :: "string list" where
  "FEATURE_COLUMNS =
     [''timestamp'', ''host'', ''avg_latency'', ''packet_loss'', ''ttl_return'', ''icmp_reachable'',
      ''filtered_ports_count'', ''scan_time'', ''syn_ack_ratio'', ''tcp_reset_ratio'',
      ''response_time'', ''header_modified'', ''firewall_label'']"

text \<open>
  What the aggregator takes from outside: the operating system that runs the probes, the
  clock (\<^verbatim>\<open>int(time.time())\<close>), the global \<^verbatim>\<open>LABEL_MAP\<close>, and two built-ins that are not
  defined here, \<^verbatim>\<open>round(x, n)\<close> on floats and \<^verbatim>\<open>float(s)\<close> on arbitrary text (\<open>None\<close> for
  \<^verbatim>\<open>ValueError\<close>).
\<close>

record world =
  subprocess_run :: subprocess
  clock :: int
  LABEL_MAP :: "(string \<times> int) list"
  py_round :: "real \<Rightarrow> nat \<Rightarrow> real"
  float_of_text :: "string \<Rightarrow> real option"

text \<open>\<^verbatim>\<open>a > b\<close> on the values a feature can hold.\<close>

fun py_gt :: "pyval \<Rightarrow> pyval \<Rightarrow> py_error + bool" where
  "py_gt (FloatV a) (FloatV b) = Inr (a > b)"
| "py_gt (FloatV a) (IntV b) = Inr (a > real_of_int b)"
| "py_gt (IntV a) (FloatV b) = Inr (real_of_int a > b)"
| "py_gt (IntV a) (IntV b) = Inr (a > b)"
| "py_gt (StrV a) (StrV b) = Inr (lexordp (\<lambda>x y. (of_char x :: nat) < of_char y) b a)"
| "py_gt _ _ = Inl TypeError"

text \<open>\<^verbatim>\<open>float(v)\<close> on a feature value.\<close>

fun to_float :: "world \<Rightarrow> pyval \<Rightarrow> py_error + real" where
  "to_float w (FloatV x) = Inr x"
| "to_float w (IntV i) = Inr (real_of_int i)"
| "to_float w (StrV s) = (case float_of_text w s of Some x \<Rightarrow> Inr x | None \<Rightarrow> Inl ValueError)"
| "to_float w NoneV = Inl TypeError"

text \<open>\<^verbatim>\<open>str.strip()\<close> and the last element of \<^verbatim>\<open>str.split('\n')\<close>.\<close>

definition strip :: "string \<Rightarrow> string" where
  "strip s = rev (dropWhile is_space (rev (dropWhile is_space s)))"

definition last_line :: "string \<Rightarrow> string" where
  "last_line s = rev (takeWhile (\<lambda>c. c \<noteq> newline) (rev s))"

definition measure_curl_time :: "world \<Rightarrow> string \<Rightarrow> int \<Rightarrow> real option" where
  "measure_curl_time w ip timeout =
     (let cmd = [''curl'', ''-s'', ''-I'', ''-w'', ''%{time_total}'', ''-o'', ''/dev/null'',
                 ''--max-time'', str_int timeout, ''http://'' @ ip]
      in case run_command (subprocess_run w) cmd (timeout + 2) False of
           None \<Rightarrow> None
         | Some output \<Rightarrow>
             if output = [] then None
             else map_option (\<lambda>x. x * 1000) (float_of_text w (last_line (strip output))))"

text \<open>Lines 196 to 203: timestamp and host, every other column empty.\<close>

definition init_features :: "world \<Rightarrow> string \<Rightarrow> dict" where
  "init_features w ip =
     fold (\<lambda>col features. dict_set features col (StrV [])) (drop 2 FEATURE_COLUMNS)
       [(''timestamp'', IntV (clock w)), (''host'', StrV ip)]"

text \<open>
  Lines 205 to 217, the two ping phases: the standard ping, whose features are merged
  into the row, then the large-packet ping, of which only the packet loss is used.
\<close>

definition collect_l3 :: "world \<Rightarrow> string \<Rightarrow> bool \<Rightarrow> dict \<Rightarrow> py_error + dict" where
  "collect_l3 w ip debug features =
     (let ping_output = run_command (subprocess_run w) [''ping'', ''-c'', ''5'', ip] 10 debug in
      bind_err (parse_ping ping_output) (\<lambda>ping_features.
      let features = dict_update features ping_features;
          ping_large_output =
            run_command (subprocess_run w) [''ping'', ''-c'', ''5'', ''-s'', ''1400'', ip] 10 debug in
      if no_output ping_large_output then Inr features
      else
        bind_err (parse_ping ping_large_output) (\<lambda>large_ping_features.
        bind_err (dict_item large_ping_features ''packet_loss'') (\<lambda>large_loss.
        if \<not> py_truthy large_loss then Inr features
        else
          bind_err (dict_item features ''packet_loss'') (\<lambda>loss.
          if \<not> py_truthy loss then Inr (dict_set features ''packet_loss'' large_loss)
          else
            bind_err (py_gt large_loss loss) (\<lambda>greater.
            if greater then Inr (dict_set features ''packet_loss'' large_loss)
            else Inr features))))))"

text \<open>Lines 219 to 232: the port scan and the two hping3 tests, five probes each.\<close>

definition collect_l4 :: "world \<Rightarrow> string \<Rightarrow> bool \<Rightarrow> dict \<Rightarrow> py_error + dict" where
  "collect_l4 w ip debug features =
     (let nmap_output =
            run_command (subprocess_run w) [''nmap'', ''-sS'', ''-p'', ''1-1024'', ip, ''-oN'', ''-''] 120 debug in
      bind_err (parse_nmap nmap_output) (\<lambda>nmap_features.
      let features = dict_update features nmap_features;
          hping3_80 =
            run_command (subprocess_run w) [''hping3'', ''-S'', ''-p'', ''80'', ''-c'', ''5'', ip] 10 debug in
      bind_err (parse_hping3 hping3_80 5) (\<lambda>syn_ack_ratio.
      let features = dict_set features ''syn_ack_ratio'' (FloatV syn_ack_ratio);
          hping3_22 =
            run_command (subprocess_run w) [''hping3'', ''-S'', ''-p'', ''22'', ''-c'', ''5'', ip] 10 debug in
      bind_err (parse_hping3_rst hping3_22 5) (\<lambda>tcp_reset_ratio.
      Inr (dict_set features ''tcp_reset_ratio'' (FloatV tcp_reset_ratio))))))"

text \<open>
  Lines 249 to 266: the sweep over the proxy ports; the first port whose answer carries an
  indicator sets \<^verbatim>\<open>header_modified\<close> and ends the loop.
\<close>

fun proxy_sweep :: "world \<Rightarrow> string \<Rightarrow> bool \<Rightarrow> int list \<Rightarrow> dict \<Rightarrow> dict" where
  "proxy_sweep w ip debug [] features = features"
| "proxy_sweep w ip debug (port # ports) features =
     (let proxy_output =
            run_command (subprocess_run w)
              [''curl'', ''-s'', ''-I'', ''-x'', ''http://'' @ ip @ '':'' @ str_int port,
               ''http://example.com'', ''--connect-timeout'', ''3''] 10 debug;
          proxy_indicators = [''via:'', ''x-squid'', ''cache-status:'', ''x-cache'', ''x-forwarded'', ''squid'']
      in case proxy_output of
           None \<Rightarrow> proxy_sweep w ip debug ports features
         | Some out \<Rightarrow>
             if out \<noteq> [] \<and> list_ex (\<lambda>indicator. py_in indicator (lower out)) proxy_indicators
             then dict_set features ''header_modified'' (IntV 1)
             else proxy_sweep w ip debug ports features)"

text \<open>Lines 234 to 266: the timed request, the header probe and the proxy sweep.\<close>

definition collect_l7 :: "world \<Rightarrow> string \<Rightarrow> bool \<Rightarrow> dict \<Rightarrow> py_error + dict" where
  "collect_l7 w ip debug features =
     (let features =
            (case measure_curl_time w ip 5 of
               Some response_time \<Rightarrow>
                 if response_time \<noteq> 0 then dict_set features ''response_time'' (FloatV response_time)
                 else features
             | None \<Rightarrow> features);
          curl_output =
            run_command (subprocess_run w)
              [''curl'', ''-s'', ''-I'', ''-H'', ''X-AIFW-Test: 1'', ''--max-time'', ''5'', ''http://'' @ ip] 8 debug;
          features = (if no_output curl_output then features
                      else dict_update features (parse_curl curl_output));
          features = dict_set features ''header_modified''
                       (py_or (dict_get features ''header_modified'' NoneV) (IntV 0))
      in bind_err (dict_item features ''header_modified'') (\<lambda>header_modified.
         if py_eq header_modified (IntV 0)
         then Inr (proxy_sweep w ip debug [3128, 8080, 8888] features)
         else Inr features))"

text \<open>Lines 268 to 275: the loop over \<^verbatim>\<open>decimal_formats\<close>, rounding every non-empty field.\<close>

fun format_fields :: "world \<Rightarrow> (string \<times> nat) list \<Rightarrow> dict \<Rightarrow> py_error + dict" where
  "format_fields w [] features = Inr features"
| "format_fields w ((field, decimals) # rest) features =
     bind_err (dict_item features field) (\<lambda>v.
     if \<not> py_eq v (StrV [])
     then bind_err (to_float w v) (\<lambda>x.
            format_fields w rest (dict_set features field (FloatV (py_round w x decimals))))
     else format_fields w rest features)"

definition decimal_formats :: "(string \<times> nat) list" where
  "decimal_formats = [(''avg_latency'', 3), (''scan_time'', 2), (''packet_loss'', 2),
                      (''syn_ack_ratio'', 3), (''tcp_reset_ratio'', 3), (''response_time'', 3)]"

text \<open>Lines 277 to 281: the label, when the host is a key of \<^verbatim>\<open>LABEL_MAP\<close>.\<close>

definition apply_label :: "world \<Rightarrow> string \<Rightarrow> dict \<Rightarrow> dict" where
  "apply_label w ip features =
     (case map_of (LABEL_MAP w) ip of
        Some label \<Rightarrow> dict_set features ''firewall_label'' (IntV label)
      | None \<Rightarrow> features)"

definition collect_features :: "world \<Rightarrow> string \<Rightarrow> bool \<Rightarrow> py_error + dict" where
  "collect_features w ip debug =
     bind_err (collect_l3 w ip debug (init_features w ip)) (\<lambda>features.
     bind_err (collect_l4 w ip debug features) (\<lambda>features.
     bind_err (collect_l7 w ip debug features) (\<lambda>features.
     bind_err (format_fields w decimal_formats features) (\<lambda>features.
     Inr (apply_label w ip features)))))"

section \<open>The dataset writer: \<^verbatim>\<open>write_csv\<close>\<close>

text \<open>
  A CSV file is the list of its records, each the list of its fields as text (quoting is
  the \<^verbatim>\<open>csv\<close> module's business); the file system maps a path to the file there, if any.
\<close>

type_synonym csv_file = "string list list"

type_synonym filesystem = "string \<rightharpoonup> csv_file"

text \<open>
  In \<open>write_csv\<close> below the parameter \<^verbatim>\<open>append\<close> of the source is called \<open>append_flag\<close>.
\<close>

text \<open>
  The dictionary comprehension of lines 301 and 302: one entry per column, in order;
  a value that is missing, \<^verbatim>\<open>''\<close> or \<^verbatim>\<open>None\<close> becomes \<^verbatim>\<open>''\<close>.
\<close>

definition csv_row :: "dict \<Rightarrow> dict" where
  "csv_row row =
     map (\<lambda>col. (col,
            if \<not> py_eq (dict_get row col (StrV [])) (StrV []) \<and> dict_get row col NoneV \<noteq> NoneV
            then dict_get row col (StrV [])
            else StrV []))
       FEATURE_COLUMNS"

text \<open>
  How the \<^verbatim>\<open>csv\<close> writer renders a field: \<^verbatim>\<open>None\<close> as nothing, a string as it is, a
  number by \<^verbatim>\<open>str\<close>. The text of a float is left to the parameter \<open>float_repr\<close>.
\<close>

fun field_text :: "(real \<Rightarrow> string) \<Rightarrow> pyval \<Rightarrow> string" where
  "field_text float_repr NoneV = []"
| "field_text float_repr (StrV s) = s"
| "field_text float_repr (IntV i) = str_int i"
| "field_text float_repr (FloatV x) = float_repr x"

text \<open>
  \<^verbatim>\<open>DictWriter.writerow\<close> with \<^verbatim>\<open>fieldnames=FEATURE_COLUMNS\<close>: the fields of the record are
  the values under the field names, in their order, \<^verbatim>\<open>''\<close> for a missing one. (It raises on a
  key outside the field names; \<open>csv_row\<close> has none.)
\<close>

definition writerow :: "(real \<Rightarrow> string) \<Rightarrow> dict \<Rightarrow> string list" where
  "writerow float_repr rowdict =
     map (\<lambda>key. field_text float_repr (dict_get rowdict key (StrV []))) FEATURE_COLUMNS"

definition write_csv ::
    "(real \<Rightarrow> string) \<Rightarrow> dict list \<Rightarrow> string \<Rightarrow> bool \<Rightarrow> filesystem \<Rightarrow> filesystem" where
  "write_csv float_repr data output_file append_flag fs =
     (let file_exists = (fs output_file \<noteq> None);
          mode_a = (append_flag \<and> file_exists);
          write_header = (\<not> (append_flag \<and> file_exists));
          f = (if mode_a then (case fs output_file of Some old \<Rightarrow> old | None \<Rightarrow> []) else []);
          f = (if write_header then f @ [FEATURE_COLUMNS] else f);
          f = f @ map (\<lambda>row. writerow float_repr (csv_row row)) data
      in fs(output_file \<mapsto> f))"

section \<open>The collection orchestrator: \<^verbatim>\<open>main\<close>\<close>

text \<open>
  One pass over the hosts (lines 409 to 425). \<open>collect\<close> is \<^verbatim>\<open>collect_features\<close> on the
  world of this pass: it returns a row or raises. A row is appended to \<^verbatim>\<open>all_features\<close>;
  an exception is caught and reported by a line naming the host and the exception, kept
  here as that pair. (The progress lines are not part of the model.)
\<close>

type_synonym batch = "dict list \<times> (string \<times> py_error) list"

definition collect_one :: "(string \<Rightarrow> py_error + dict) \<Rightarrow> batch \<Rightarrow> string \<Rightarrow> batch" where
  "collect_one collect acc ip =
     (case collect ip of
        Inr features \<Rightarrow> (fst acc @ [features], snd acc)
      | Inl e \<Rightarrow> (fst acc, snd acc @ [(ip, e)]))"

text \<open>
  With \<^verbatim>\<open>--parallel\<close> above 1 the hosts are submitted to a worker pool and their results
  taken in the order the workers finish, \<open>completion\<close>, an ordering of the positions of
  \<open>targets\<close>; otherwise the hosts are visited in order.
\<close>

definition collect_all ::
    "int \<Rightarrow> nat list \<Rightarrow> (string \<Rightarrow> py_error + dict) \<Rightarrow> string list \<Rightarrow> batch" where
  "collect_all parallel completion collect targets =
     (if parallel > 1
      then foldl (collect_one collect) ([], []) (map (\<lambda>i. targets ! i) completion)
      else foldl (collect_one collect) ([], []) targets)"

text \<open>
  The loop over the iterations (lines 402 to 433), given the rows each iteration
  collected: a batch that is not empty is written, appending from the second iteration on.
\<close>

fun write_iterations ::
    "(real \<Rightarrow> string) \<Rightarrow> string \<Rightarrow> nat \<Rightarrow> dict list list \<Rightarrow> filesystem \<Rightarrow> filesystem" where
  "write_iterations float_repr output iteration [] fs = fs"
| "write_iterations float_repr output iteration (all_features # rest) fs =
     write_iterations float_repr output (Suc iteration) rest
       (if all_features \<noteq> [] then write_csv float_repr all_features output (iteration > 0) fs
        else fs)"

section \<open>Scenarios\<close>

text \<open>
  The value a parser or the aggregator returned under a key: \<open>None\<close> when it raised or
  the key is missing.
\<close>

definition returned_item :: "py_error + dict \<Rightarrow> string \<Rightarrow> pyval option" where
  "returned_item r k = (case r of Inr d \<Rightarrow> map_of d k | Inl e \<Rightarrow> None)"

text \<open>The summary and round-trip lines of a ping run, and a reply line.\<close>

definition ping_scenario :: string where
  "ping_scenario = ''5 packets transmitted, 5 received, 0% packet loss'' @ [newline] @
                   ''rtt min/avg/max/mdev = 1.0/2.345/3.0/0.5 ms''"

definition ping_reply_line :: string where
  "ping_reply_line = ''64 bytes from 10.0.0.1: icmp_seq=1 ttl=64 time=2.35 ms''"

text \<open>A line hping3 prints for a SYN/ACK reply: no reset flag.\<close>

definition hping3_syn_ack_line :: string where
  "hping3_syn_ack_line =
     ''len=46 ip=10.0.0.1 ttl=64 DF id=0 sport=22 flags=SA seq=0 win=29200 rtt=0.4 ms''"

text \<open>
  A world in which only the large-packet ping of host 10.0.0.1 answers, without loss, and
  every other probe times out.
\<close>

definition large_ping_summary :: string where
  "large_ping_summary = ''5 packets transmitted, 5 received, 0% packet loss, time 4005ms''"

definition large_ping_only :: world where
  "large_ping_only =
     \<lparr>subprocess_run = (\<lambda>cmd timeout.
          if cmd = [''ping'', ''-c'', ''5'', ''-s'', ''1400'', ''10.0.0.1'']
          then Completed 0 large_ping_summary []
          else TimeoutExpired),
       clock = 0, LABEL_MAP = [], py_round = (\<lambda>x n. x), float_of_text = (\<lambda>s. None)\<rparr>"

text \<open>Two rows as \<open>write_csv\<close> may receive them: some columns missing, empty or \<^verbatim>\<open>None\<close>.\<close>

definition row_a :: dict where
  "row_a = [(''timestamp'', IntV 1700000000), (''host'', StrV ''10.0.0.1''), (''avg_latency'', StrV []),
            (''ttl_return'', NoneV), (''icmp_reachable'', IntV 0)]"

definition row_b :: dict where
  "row_b = [(''timestamp'', IntV 1700000060), (''host'', StrV ''10.0.0.1''), (''icmp_reachable'', IntV 1)]"

text \<open>A batch of three hosts in which collecting from the second one raises.\<close>

definition three_hosts :: "string list" where
  "three_hosts = [''10.0.0.1'', ''10.0.0.2'', ''10.0.0.3'']"

definition second_host_fails :: "string \<Rightarrow> py_error + dict" where
  "second_host_fails ip =
     (if ip = ''10.0.0.2'' then Inl (Exception ''unexpected'') else Inr [(''host'', StrV ip)])"

text \<open>
  The two features that only the first ping sets, and the place where the pattern
  \<^verbatim>\<open>ttl=(\d+)\<close> can match: the letters "ttl" in either case, "=", and a digit.
\<close>

definition l3_key :: "string \<Rightarrow> bool" where
  "l3_key k = (k = ''ttl_return'' \<or> k = ''icmp_reachable'')"

definition ttl_marker_at :: "string \<Rightarrow> bool" where
  "ttl_marker_at s =
     (case s of
        a # b # c # d # e # rest \<Rightarrow> lower [a, b, c, d] = ''ttl='' \<and> is_digit e
      | _ \<Rightarrow> False)"

text \<open>
  A world in which only the standard ping of host 10.0.0.1 answers, and the reply line
  split around its TTL marker.
\<close>

definition ping_only :: world where
  "ping_only =
     \<lparr>subprocess_run = (\<lambda>cmd timeout.
          if cmd = [''ping'', ''-c'', ''5'', ''10.0.0.1'']
          then Completed 0 (ping_reply_line @ [newline] @ ping_scenario) []
          else TimeoutExpired),
       clock = 1700000000, LABEL_MAP = [(''10.0.0.1'', 2)], py_round = (\<lambda>x n. x),
       float_of_text = (\<lambda>s. None)\<rparr>"

definition reply_line_prefix :: string where
  "reply_line_prefix = ''64 bytes from 10.0.0.1: icmp_seq=1 ''"

definition reply_line_suffix :: string where
  "reply_line_suffix = '' time=2.35 ms''"

section \<open>Properties of the probe executor and of the ratio parsers\<close>

text \<open>
  Claim C1. Whatever the hping3 output (absent, empty, or any text, replies duplicated or
  not) and whatever the sent count, \<open>parse_hping3\<close> and \<open>parse_hping3_rst\<close> return a number
  between 0 and 1 inclusive, and never raise; with a sent count of 0 both return 0.0, the
  division being skipped.
\<close>

theorem parse_hping3_ratios_in_unit_interval:
  "(\<exists>r. parse_hping3 output sent_count = Inr r \<and> 0 \<le> r \<and> r \<le> 1) \<and>
   (\<exists>r. parse_hping3_rst output sent_count = Inr r \<and> 0 \<le> r \<and> r \<le> 1) \<and>
   parse_hping3 output 0 = Inr 0 \<and> parse_hping3_rst output 0 = Inr 0"
  by (simp add: parse_hping3_def parse_hping3_rst_def bind_err_def py_truediv_def Let_def
           split: option.split)

text \<open>
  Claim C2. The three-way contract of \<open>run_command\<close>: when the process times out or cannot
  be run the result is \<open>None\<close>; when it exits with code zero the result is its standard
  output alone; when it exits with any other code the result is its standard output
  followed by its standard error.
\<close>

theorem run_command_contract:
  "(run cmd timeout = TimeoutExpired \<or> (\<exists>e. run cmd timeout = Raised e)
      \<longrightarrow> run_command run cmd timeout debug = None) \<and>
   (run cmd timeout = Completed 0 out err \<longrightarrow> run_command run cmd timeout debug = Some out) \<and>
   (rc \<noteq> 0 \<and> run cmd timeout = Completed rc out err
      \<longrightarrow> run_command run cmd timeout debug = Some (out @ err))"
  by (auto simp: run_command_def)

theorem run_command_contract_witness:
  "run_command (\<lambda>cmd timeout. TimeoutExpired) [''ping''] 10 False = None \<and>
   run_command (\<lambda>cmd timeout. Raised (Exception ''no such file'')) [''ping''] 10 False = None \<and>
   run_command (\<lambda>cmd timeout. Completed 0 ''out'' ''err'') [''ping''] 10 False = Some ''out'' \<and>
   run_command (\<lambda>cmd timeout. Completed 1 ''out'' ''err'') [''ping''] 10 False = Some ''outerr''"
  using run_command_contract [where run = "\<lambda>cmd timeout. TimeoutExpired" and cmd = "[''ping'']"
          and timeout = 10 and debug = False]
        run_command_contract [where run = "\<lambda>cmd timeout. Raised (Exception ''no such file'')"
          and cmd = "[''ping'']" and timeout = 10 and debug = False]
        run_command_contract [where run = "\<lambda>cmd timeout. Completed 0 ''out'' ''err''"
          and cmd = "[''ping'']" and timeout = 10 and debug = False and out = "''out''" and err = "''err''"]
        run_command_contract [where run = "\<lambda>cmd timeout. Completed 1 ''out'' ''err''"
          and cmd = "[''ping'']" and timeout = 10 and debug = False and out = "''out''" and err = "''err''"
          and rc = 1]
  by simp

section \<open>Properties of the ICMP parser and of the two ping phases\<close>

lemma parse_ping_scenario_value:
  "parse_ping (Some ping_scenario) =
     Inr [(''avg_latency'', FloatV 2.345), (''packet_loss'', FloatV 0), (''ttl_return'', StrV []),
          (''icmp_reachable'', IntV 0)]"
  by code_simp

lemma parse_ping_reply_scenario_value:
  "parse_ping (Some (ping_reply_line @ [newline] @ ping_scenario)) =
     Inr [(''avg_latency'', FloatV 2.345), (''packet_loss'', FloatV 0), (''ttl_return'', IntV 64),
          (''icmp_reachable'', IntV 1)]"
  by code_simp

text \<open>
  Claim C3, as stated, fails: on the input made of the line
  "5 packets transmitted, 5 received, 0% packet loss" and the line
  "rtt min/avg/max/mdev = 1.0/2.345/3.0/0.5 ms", \<open>parse_ping\<close> does not give
  \<open>packet_loss = 0.0\<close>, \<open>avg_latency = 2.345\<close> and \<open>icmp_reachable = 1\<close> together.
\<close>

theorem parse_ping_scenario_counterexample:
  "\<not> (returned_item (parse_ping (Some ping_scenario)) ''packet_loss'' = Some (FloatV 0) \<and>
      returned_item (parse_ping (Some ping_scenario)) ''avg_latency'' = Some (FloatV 2.345) \<and>
      returned_item (parse_ping (Some ping_scenario)) ''icmp_reachable'' = Some (IntV 1))"
  by (simp add: parse_ping_scenario_value returned_item_def)

text \<open>
  Claim C3, amended. On that input \<open>parse_ping\<close> gives \<open>packet_loss = 0.0\<close>,
  \<open>avg_latency = 2.345\<close> and \<open>icmp_reachable = 0\<close>: the two lines hold no reply marker
  ("bytes from" or "icmp_seq="). Preceded by a reply line of the ping run, the same two
  lines give \<open>packet_loss = 0.0\<close>, \<open>avg_latency = 2.345\<close> and \<open>icmp_reachable = 1\<close>.
\<close>

theorem parse_ping_scenario:
  "returned_item (parse_ping (Some ping_scenario)) ''packet_loss'' = Some (FloatV 0) \<and>
   returned_item (parse_ping (Some ping_scenario)) ''avg_latency'' = Some (FloatV 2.345) \<and>
   returned_item (parse_ping (Some ping_scenario)) ''icmp_reachable'' = Some (IntV 0) \<and>
   returned_item (parse_ping (Some (ping_reply_line @ [newline] @ ping_scenario))) ''packet_loss''
     = Some (FloatV 0) \<and>
   returned_item (parse_ping (Some (ping_reply_line @ [newline] @ ping_scenario))) ''avg_latency''
     = Some (FloatV 2.345) \<and>
   returned_item (parse_ping (Some (ping_reply_line @ [newline] @ ping_scenario))) ''icmp_reachable''
     = Some (IntV 1)"
  using parse_ping_scenario_value parse_ping_reply_scenario_value
  by (simp add: returned_item_def)

text \<open>
  Claim C5 says that a packet loss parsed from the large-packet ping always fills a value
  the first ping left empty. The code tests the parsed value by its truth value, and 0.0
  is false: when the first ping times out and the large-packet ping reports 0% loss, the
  parsed 0.0 is dropped and \<open>packet_loss\<close> stays empty, after the two ping phases and in
  the finished row.
\<close>

theorem large_ping_zero_loss_not_filled:
  "returned_item (parse_ping (Some large_ping_summary)) ''packet_loss'' = Some (FloatV 0) \<and>
   returned_item
     (collect_l3 large_ping_only ''10.0.0.1'' False (init_features large_ping_only ''10.0.0.1''))
     ''packet_loss'' = Some (StrV []) \<and>
   returned_item (collect_features large_ping_only ''10.0.0.1'' False) ''packet_loss''
     = Some (StrV [])"
  by code_simp

text \<open>
  Claim C9 says that a line whose flag field holds no R does not count towards the RST
  ratio. The pattern \<^verbatim>\<open>flags=.*R\<close> is matched ignoring case and \<^verbatim>\<open>.*\<close> runs to the end
  of the line, so the r of the "rtt=" field that hping3 prints after the flags counts: one
  SYN/ACK reply line out of five probes gives a ratio of 0.2, not 0.
\<close>

theorem rst_ratio_counts_syn_ack_line:
  "findall_count rst_pattern hping3_syn_ack_line = 1 \<and>
   parse_hping3_rst (Some hping3_syn_ack_line) 5 = Inr (1 / 5)"
  by code_simp

section \<open>Properties of the dataset writer\<close>

lemma length_FEATURE_COLUMNS: "length FEATURE_COLUMNS = 13"
  by (simp add: FEATURE_COLUMNS_def)

lemma length_writerow: "length (writerow float_repr rowdict) = 13"
  by (simp add: writerow_def length_FEATURE_COLUMNS)

lemma keys_csv_row: "map fst (csv_row row) = FEATURE_COLUMNS"
  by (simp add: csv_row_def comp_def)

lemma map_of_tabulate:
  "map_of (map (\<lambda>c. (c, g c)) cs) col = (if col \<in> set cs then Some (g col) else None)"
  by (induction cs) auto

lemma csv_cell_cases:
  "(if \<not> py_eq (dict_get row col (StrV [])) (StrV []) \<and> dict_get row col NoneV \<noteq> NoneV
    then dict_get row col (StrV []) else StrV []) =
   (case map_of row col of None \<Rightarrow> StrV [] | Some v \<Rightarrow> if v = NoneV then StrV [] else v)"
proof (cases "map_of row col")
  case None
  then show ?thesis by (simp add: dict_get_def)
next
  case (Some v)
  then show ?thesis by (cases v) (auto simp: dict_get_def)
qed

lemma map_of_csv_row:
  "col \<in> set FEATURE_COLUMNS \<Longrightarrow>
   map_of (csv_row row) col =
     Some (case map_of row col of None \<Rightarrow> StrV [] | Some v \<Rightarrow> if v = NoneV then StrV [] else v)"
  unfolding csv_row_def csv_cell_cases by (simp add: map_of_tabulate)

lemma writerow_csv_row_nth:
  assumes "i < 13"
  shows "writerow float_repr (csv_row row) ! i =
           (case map_of row (FEATURE_COLUMNS ! i) of
              None \<Rightarrow> []
            | Some v \<Rightarrow> field_text float_repr v)"
proof -
  have i: "i < length FEATURE_COLUMNS" using assms by (simp add: length_FEATURE_COLUMNS)
  then have mem: "FEATURE_COLUMNS ! i \<in> set FEATURE_COLUMNS" by simp
  show ?thesis
    using i by (auto simp: writerow_def dict_get_def map_of_csv_row [OF mem] split: option.split)
qed

lemma write_csv_file:
  "write_csv float_repr data output_file append_flag fs output_file =
     Some ((case fs output_file of
              Some old \<Rightarrow> if append_flag then old else [FEATURE_COLUMNS]
            | None \<Rightarrow> [FEATURE_COLUMNS])
           @ map (\<lambda>row. writerow float_repr (csv_row row)) data)"
  by (auto simp: write_csv_def Let_def split: option.split)

text \<open>
  Claim C7. Every row \<open>write_csv\<close> serialises has exactly the 13 fixed columns in the fixed
  order. After \<open>write_csv\<close> the file at the path is what was there to begin with (the old
  file when appending to one, the header record \<open>FEATURE_COLUMNS\<close> otherwise) followed by one
  record for each row of the data, in order; the record of a row has 13 fields, and its
  field \<open>i\<close> is the text of the row's value under the column \<open>FEATURE_COLUMNS ! i\<close>. A column
  that is missing from the row, or holds the empty string or \<^verbatim>\<open>None\<close>, is written as the
  empty field, not as a token such as "None" or "nan". The record is \<open>writerow\<close> of
  \<open>csv_row\<close> of the row, whose keys are \<open>FEATURE_COLUMNS\<close>; the same holds of these two for
  any row.
\<close>

theorem csv_rows_have_the_fixed_columns:
  assumes "prior = (case fs path of
                      Some old \<Rightarrow> if append_flag then old else [FEATURE_COLUMNS]
                    | None \<Rightarrow> [FEATURE_COLUMNS])"
  shows "\<exists>file. write_csv float_repr data path append_flag fs path = Some file \<and>
           take (length prior) file = prior \<and>
           length file = length prior + length data \<and>
           length FEATURE_COLUMNS = 13 \<and>
           (\<forall>k<length data.
              file ! (length prior + k) = writerow float_repr (csv_row (data ! k)) \<and>
              map fst (csv_row (data ! k)) = FEATURE_COLUMNS \<and>
              length (file ! (length prior + k)) = 13 \<and>
              (\<forall>i<13. file ! (length prior + k) ! i =
                         (case map_of (data ! k) (FEATURE_COLUMNS ! i) of
                            None \<Rightarrow> []
                          | Some v \<Rightarrow> field_text float_repr v)) \<and>
              (\<forall>i<13. map_of (data ! k) (FEATURE_COLUMNS ! i) \<in> {None, Some (StrV []), Some NoneV}
                         \<longrightarrow> file ! (length prior + k) ! i = [])) \<and>
           map fst (csv_row row) = FEATURE_COLUMNS \<and>
           length (writerow float_repr (csv_row row)) = 13 \<and>
           (\<forall>i<13. writerow float_repr (csv_row row) ! i =
                      (case map_of row (FEATURE_COLUMNS ! i) of
                         None \<Rightarrow> []
                       | Some v \<Rightarrow> field_text float_repr v)) \<and>
           (\<forall>i<13. map_of row (FEATURE_COLUMNS ! i) \<in> {None, Some (StrV []), Some NoneV}
                      \<longrightarrow> writerow float_repr (csv_row row) ! i = [])"
proof -
  let ?recs = "map (\<lambda>row. writerow float_repr (csv_row row)) data"
  have wr: "write_csv float_repr data path append_flag fs path = Some (prior @ ?recs)"
    unfolding assms by (rule write_csv_file)
  have rec: "(prior @ ?recs) ! (length prior + k) = writerow float_repr (csv_row (data ! k))"
    if "k < length data" for k
    using that by (simp add: nth_append)
  have fields: "\<forall>i<13. writerow float_repr (csv_row r) ! i =
                  (case map_of r (FEATURE_COLUMNS ! i) of
                     None \<Rightarrow> []
                   | Some v \<Rightarrow> field_text float_repr v)" for r
    by (simp add: writerow_csv_row_nth)
  have unset: "\<forall>i<13. map_of r (FEATURE_COLUMNS ! i) \<in> {None, Some (StrV []), Some NoneV}
                  \<longrightarrow> writerow float_repr (csv_row r) ! i = []" for r
    by (auto simp: writerow_csv_row_nth)
  have each: "\<forall>k<length data.
      (prior @ ?recs) ! (length prior + k) = writerow float_repr (csv_row (data ! k)) \<and>
      map fst (csv_row (data ! k)) = FEATURE_COLUMNS \<and>
      length ((prior @ ?recs) ! (length prior + k)) = 13 \<and>
      (\<forall>i<13. (prior @ ?recs) ! (length prior + k) ! i =
                 (case map_of (data ! k) (FEATURE_COLUMNS ! i) of
                    None \<Rightarrow> []
                  | Some v \<Rightarrow> field_text float_repr v)) \<and>
      (\<forall>i<13. map_of (data ! k) (FEATURE_COLUMNS ! i) \<in> {None, Some (StrV []), Some NoneV}
                 \<longrightarrow> (prior @ ?recs) ! (length prior + k) ! i = [])"
  proof (intro allI impI)
    fix k assume k: "k < length data"
    show "(prior @ ?recs) ! (length prior + k) = writerow float_repr (csv_row (data ! k)) \<and>
      map fst (csv_row (data ! k)) = FEATURE_COLUMNS \<and>
      length ((prior @ ?recs) ! (length prior + k)) = 13 \<and>
      (\<forall>i<13. (prior @ ?recs) ! (length prior + k) ! i =
                 (case map_of (data ! k) (FEATURE_COLUMNS ! i) of
                    None \<Rightarrow> []
                  | Some v \<Rightarrow> field_text float_repr v)) \<and>
      (\<forall>i<13. map_of (data ! k) (FEATURE_COLUMNS ! i) \<in> {None, Some (StrV []), Some NoneV}
                 \<longrightarrow> (prior @ ?recs) ! (length prior + k) ! i = [])"
      unfolding rec [OF k]
      using fields [of "data ! k"] unset [of "data ! k"]
      by (simp only: keys_csv_row length_writerow simp_thms)
  qed
  show ?thesis
  proof (intro exI conjI)
    show "write_csv float_repr data path append_flag fs path = Some (prior @ ?recs)" by (rule wr)
    show "take (length prior) (prior @ ?recs) = prior" by simp
    show "length (prior @ ?recs) = length prior + length data" by simp
    show "length FEATURE_COLUMNS = 13" by (rule length_FEATURE_COLUMNS)
    show "\<forall>k<length data.
      (prior @ ?recs) ! (length prior + k) = writerow float_repr (csv_row (data ! k)) \<and>
      map fst (csv_row (data ! k)) = FEATURE_COLUMNS \<and>
      length ((prior @ ?recs) ! (length prior + k)) = 13 \<and>
      (\<forall>i<13. (prior @ ?recs) ! (length prior + k) ! i =
                 (case map_of (data ! k) (FEATURE_COLUMNS ! i) of
                    None \<Rightarrow> []
                  | Some v \<Rightarrow> field_text float_repr v)) \<and>
      (\<forall>i<13. map_of (data ! k) (FEATURE_COLUMNS ! i) \<in> {None, Some (StrV []), Some NoneV}
                 \<longrightarrow> (prior @ ?recs) ! (length prior + k) ! i = [])" by (rule each)
    show "map fst (csv_row row) = FEATURE_COLUMNS" by (rule keys_csv_row)
    show "length (writerow float_repr (csv_row row)) = 13" by (rule length_writerow)
    show "\<forall>i<13. writerow float_repr (csv_row row) ! i =
                      (case map_of row (FEATURE_COLUMNS ! i) of
                         None \<Rightarrow> []
                       | Some v \<Rightarrow> field_text float_repr v)" by (rule fields)
    show "\<forall>i<13. map_of row (FEATURE_COLUMNS ! i) \<in> {None, Some (StrV []), Some NoneV}
                      \<longrightarrow> writerow float_repr (csv_row row) ! i = []" by (rule unset)
  qed
qed

lemma write_csv_fresh:
  "\<not> append_flag \<or> fs output_file = None \<Longrightarrow>
   write_csv float_repr data output_file append_flag fs =
     fs(output_file \<mapsto> FEATURE_COLUMNS # map (\<lambda>row. writerow float_repr (csv_row row)) data)"
  by (auto simp: write_csv_def Let_def)

lemma write_csv_append:
  "append_flag \<Longrightarrow> fs output_file = Some old \<Longrightarrow>
   write_csv float_repr data output_file append_flag fs =
     fs(output_file \<mapsto> old @ map (\<lambda>row. writerow float_repr (csv_row row)) data)"
  by (auto simp: write_csv_def Let_def)

text \<open>
  Claim C6. Writing the batch of iteration 1 without appending and then the batch of
  iteration 2 with appending, to the same path, leaves a file that is one header record
  followed by the records of both batches: with \<open>n\<close> hosts in each batch, \<open>2 * n\<close> data
  records. This is what the iteration loop of \<open>main\<close> does for two batches that are not
  empty. In general \<open>write_csv\<close> creates the file anew, header first, exactly when it is not
  appending or the file does not exist; otherwise it adds the records to the file as it
  is, without a header.
\<close>

theorem write_csv_one_header:
  assumes "length batch1 = n" and "length batch2 = n"
  shows "write_csv float_repr batch2 path True (write_csv float_repr batch1 path False fs) path =
           Some (FEATURE_COLUMNS # map (\<lambda>row. writerow float_repr (csv_row row)) (batch1 @ batch2)) \<and>
         length (map (\<lambda>row. writerow float_repr (csv_row row)) (batch1 @ batch2)) = 2 * n \<and>
         (0 < n \<longrightarrow> write_iterations float_repr path 0 [batch1, batch2] fs =
                      write_csv float_repr batch2 path True (write_csv float_repr batch1 path False fs)) \<and>
         (\<not> append_flag \<or> fs path = None \<longrightarrow>
            write_csv float_repr data path append_flag fs path =
              Some (FEATURE_COLUMNS # map (\<lambda>row. writerow float_repr (csv_row row)) data)) \<and>
         (append_flag \<and> fs path = Some old \<longrightarrow>
            write_csv float_repr data path append_flag fs path =
              Some (old @ map (\<lambda>row. writerow float_repr (csv_row row)) data))"
proof -
  let ?rows = "\<lambda>b. map (\<lambda>row. writerow float_repr (csv_row row)) b"
  have first: "write_csv float_repr batch1 path False fs = fs(path \<mapsto> FEATURE_COLUMNS # ?rows batch1)"
    by (simp add: write_csv_fresh)
  have second: "write_csv float_repr batch2 path True (fs(path \<mapsto> FEATURE_COLUMNS # ?rows batch1)) =
      (fs(path \<mapsto> FEATURE_COLUMNS # ?rows batch1))(path \<mapsto> (FEATURE_COLUMNS # ?rows batch1) @ ?rows batch2)"
    by (rule write_csv_append) simp_all
  have a: "write_csv float_repr batch2 path True (write_csv float_repr batch1 path False fs) path =
           Some (FEATURE_COLUMNS # ?rows (batch1 @ batch2))"
    by (simp add: first second)
  have b: "length (?rows (batch1 @ batch2)) = 2 * n" using assms by simp
  have c: "0 < n \<longrightarrow> write_iterations float_repr path 0 [batch1, batch2] fs =
                      write_csv float_repr batch2 path True (write_csv float_repr batch1 path False fs)"
    using assms by auto
  have d: "\<not> append_flag \<or> fs path = None \<longrightarrow>
            write_csv float_repr data path append_flag fs path =
              Some (FEATURE_COLUMNS # ?rows data)"
    by (auto simp: write_csv_fresh)
  have e: "append_flag \<and> fs path = Some old \<longrightarrow>
            write_csv float_repr data path append_flag fs path = Some (old @ ?rows data)"
    by (auto simp: write_csv_append)
  from a b c d e show ?thesis by blast
qed


theorem csv_rows_have_the_fixed_columns_witness:
  "[FEATURE_COLUMNS] = (case Map.empty ''dataset.csv'' of
                          Some old \<Rightarrow> if False then old else [FEATURE_COLUMNS]
                        | None \<Rightarrow> [FEATURE_COLUMNS]) \<and>
   (\<exists>file. write_csv (\<lambda>x. ''?'') [row_a, row_b] ''dataset.csv'' False Map.empty ''dataset.csv'' = Some file \<and>
      length file = 3 \<and> file ! 0 = FEATURE_COLUMNS \<and>
      length (file ! 1) = 13 \<and> length (file ! 2) = 13 \<and>
      map_of row_a (FEATURE_COLUMNS ! 2) = Some (StrV []) \<and> file ! 1 ! 2 = [] \<and>
      map_of row_a (FEATURE_COLUMNS ! 4) = Some NoneV \<and> file ! 1 ! 4 = [] \<and>
      map_of row_a (FEATURE_COLUMNS ! 12) = None \<and> file ! 1 ! 12 = [] \<and>
      file ! 1 ! 1 = ''10.0.0.1'' \<and>
      map_of row_b (FEATURE_COLUMNS ! 2) = None \<and> file ! 2 ! 2 = [] \<and>
      file ! 2 ! 1 = ''10.0.0.1'')"
proof -
  have prior: "[FEATURE_COLUMNS] = (case Map.empty ''dataset.csv'' of
                          Some old \<Rightarrow> if False then old else [FEATURE_COLUMNS]
                        | None \<Rightarrow> [FEATURE_COLUMNS])"
    by simp
  from csv_rows_have_the_fixed_columns
         [where prior = "[FEATURE_COLUMNS]" and fs = Map.empty and path = "''dataset.csv''"
            and append_flag = False and data = "[row_a, row_b]" and float_repr = "\<lambda>x. ''?''"
            and row = row_a, OF prior]
  obtain written where
    wr: "write_csv (\<lambda>x. ''?'') [row_a, row_b] ''dataset.csv'' False Map.empty ''dataset.csv'' = Some written"
    and pre: "take (length [FEATURE_COLUMNS]) written = [FEATURE_COLUMNS]"
    and len: "length written = length [FEATURE_COLUMNS] + length [row_a, row_b]"
    and recs: "\<forall>k<length [row_a, row_b].
              length (written ! (length [FEATURE_COLUMNS] + k)) = 13 \<and>
              (\<forall>i<13. written ! (length [FEATURE_COLUMNS] + k) ! i =
                         (case map_of ([row_a, row_b] ! k) (FEATURE_COLUMNS ! i) of
                            None \<Rightarrow> []
                          | Some v \<Rightarrow> field_text (\<lambda>x. ''?'') v))"
    by blast
  from len have len3: "length written = 3"
    by simp
  from pre len3 have head: "written ! 0 = FEATURE_COLUMNS"
    by (cases written) simp_all
  have r0: "length (written ! 1) = 13"
    and f0: "\<And>i. i < 13 \<Longrightarrow> written ! 1 ! i =
                    (case map_of row_a (FEATURE_COLUMNS ! i) of
                       None \<Rightarrow> []
                     | Some v \<Rightarrow> field_text (\<lambda>x. ''?'') v)"
    using recs [rule_format, of 0] by simp_all
  have r1: "length (written ! 2) = 13"
    and f1: "\<And>i. i < 13 \<Longrightarrow> written ! 2 ! i =
                    (case map_of row_b (FEATURE_COLUMNS ! i) of
                       None \<Rightarrow> []
                     | Some v \<Rightarrow> field_text (\<lambda>x. ''?'') v)"
    using recs [rule_format, of 1] by (simp_all add: numeral_2_eq_2)
  have cols: "FEATURE_COLUMNS ! Suc 0 = ''host''" "FEATURE_COLUMNS ! 2 = ''avg_latency''"
    "FEATURE_COLUMNS ! 4 = ''ttl_return''" "FEATURE_COLUMNS ! 12 = ''firewall_label''"
    by (simp_all add: FEATURE_COLUMNS_def)
  have a: "map_of row_a ''host'' = Some (StrV ''10.0.0.1'')" "map_of row_a ''avg_latency'' = Some (StrV [])"
    "map_of row_a ''ttl_return'' = Some NoneV" "map_of row_a ''firewall_label'' = None"
    by (simp_all add: row_a_def)
  have b: "map_of row_b ''host'' = Some (StrV ''10.0.0.1'')" "map_of row_b ''avg_latency'' = None"
    by (simp_all add: row_b_def)
  show ?thesis
    using wr len3 head r0 r1 f0 [of 1] f0 [of 2] f0 [of 4] f0 [of 12] f1 [of 1] f1 [of 2]
    by (simp add: cols a b)
qed

theorem write_csv_one_header_witness:
  "length [row_a] = 1 \<and> length [row_b] = 1 \<and>
   write_csv (\<lambda>x. ''?'') [row_b] ''dataset.csv'' True
     (write_csv (\<lambda>x. ''?'') [row_a] ''dataset.csv'' False Map.empty) ''dataset.csv'' =
     Some [FEATURE_COLUMNS, writerow (\<lambda>x. ''?'') (csv_row row_a), writerow (\<lambda>x. ''?'') (csv_row row_b)] \<and>
   write_iterations (\<lambda>x. ''?'') ''dataset.csv'' 0 [[row_a], [row_b]] Map.empty ''dataset.csv'' =
     Some [FEATURE_COLUMNS, writerow (\<lambda>x. ''?'') (csv_row row_a), writerow (\<lambda>x. ''?'') (csv_row row_b)] \<and>
   write_csv (\<lambda>x. ''?'') [row_b] ''dataset.csv'' True Map.empty ''dataset.csv'' =
     Some [FEATURE_COLUMNS, writerow (\<lambda>x. ''?'') (csv_row row_b)] \<and>
   write_csv (\<lambda>x. ''?'') [row_b] ''dataset.csv'' True [''dataset.csv'' \<mapsto> [FEATURE_COLUMNS]] ''dataset.csv'' =
     Some [FEATURE_COLUMNS, writerow (\<lambda>x. ''?'') (csv_row row_b)]"
  using write_csv_one_header [where ?batch1.0 = "[row_a]" and ?batch2.0 = "[row_b]" and n = 1
          and float_repr = "\<lambda>x. ''?''" and path = "''dataset.csv''" and fs = Map.empty
          and append_flag = True and data = "[row_b]" and old = "[FEATURE_COLUMNS]"]
        write_csv_one_header [where ?batch1.0 = "[row_a]" and ?batch2.0 = "[row_b]" and n = 1
          and float_repr = "\<lambda>x. ''?''" and path = "''dataset.csv''"
          and fs = "[''dataset.csv'' \<mapsto> [FEATURE_COLUMNS]]"
          and append_flag = True and data = "[row_b]" and old = "[FEATURE_COLUMNS]"]
  by simp

section \<open>Properties of the collection orchestrator\<close>

lemma foldl_collect_one:
  "foldl (collect_one collect) acc ips =
     (fst acc @ map (\<lambda>ip. projr (collect ip)) (filter (\<lambda>ip. \<not> isl (collect ip)) ips),
      snd acc @ map (\<lambda>ip. (ip, projl (collect ip))) (filter (\<lambda>ip. isl (collect ip)) ips))"
proof (induction ips arbitrary: acc)
  case Nil
  then show ?case by simp
next
  case (Cons ip ips)
  have step: "collect_one collect acc ip =
      (if isl (collect ip) then (fst acc, snd acc @ [(ip, projl (collect ip))])
       else (fst acc @ [projr (collect ip)], snd acc))"
    by (cases "collect ip") (simp_all add: collect_one_def)
  show ?case
    unfolding foldl_Cons Cons.IH step by simp
qed

lemma only_index_elsewhere:
  assumes k: "k < length xs"
    and others: "\<forall>i<length xs. i \<noteq> k \<longrightarrow> \<not> P (xs ! i)"
  shows "\<forall>x \<in> set (take k xs @ drop (Suc k) xs). \<not> P x"
proof
  fix x assume "x \<in> set (take k xs @ drop (Suc k) xs)"
  then consider "x \<in> set (take k xs)" | "x \<in> set (drop (Suc k) xs)" by auto
  then show "\<not> P x"
  proof cases
    case 1
    then obtain i where "i < length (take k xs)" "take k xs ! i = x"
      by (auto simp: in_set_conv_nth)
    with k others show ?thesis by auto
  next
    case 2
    then obtain i where i: "i < length (drop (Suc k) xs)" "drop (Suc k) xs ! i = x"
      by (auto simp: in_set_conv_nth)
    then have "Suc k + i < length xs" "xs ! (Suc k + i) = x" "Suc k + i \<noteq> k" by auto
    with others show ?thesis by blast
  qed
qed

lemma filter_only_index:
  assumes k: "k < length xs" and Pk: "P (xs ! k)"
    and others: "\<forall>i<length xs. i \<noteq> k \<longrightarrow> \<not> P (xs ! i)"
  shows "filter P xs = [xs ! k]"
    and "filter (\<lambda>x. \<not> P x) xs = take k xs @ drop (Suc k) xs"
proof -
  have split: "xs = take k xs @ xs ! k # drop (Suc k) xs"
    using k by (rule id_take_nth_drop)
  have none: "\<forall>x \<in> set (take k xs @ drop (Suc k) xs). \<not> P x"
    using k others by (rule only_index_elsewhere)
  then have before: "filter P (take k xs) = []" and after: "filter P (drop (Suc k) xs) = []"
    by (simp_all add: filter_empty_conv)
  have "filter P xs = filter P (take k xs @ xs ! k # drop (Suc k) xs)"
    using split by simp
  also have "\<dots> = [xs ! k]"
    using before after Pk by simp
  finally show "filter P xs = [xs ! k]" .
  from none have before': "filter (\<lambda>x. \<not> P x) (take k xs) = take k xs"
    and after': "filter (\<lambda>x. \<not> P x) (drop (Suc k) xs) = drop (Suc k) xs"
    by (simp_all add: filter_id_conv)
  have "filter (\<lambda>x. \<not> P x) xs = filter (\<lambda>x. \<not> P x) (take k xs @ xs ! k # drop (Suc k) xs)"
    using split by simp
  also have "\<dots> = take k xs @ drop (Suc k) xs"
    using before' after' Pk by simp
  finally show "filter (\<lambda>x. \<not> P x) xs = take k xs @ drop (Suc k) xs" .
qed

lemma mset_completion_order:
  assumes "mset completion = mset [0..<length targets]"
  shows "mset (map (\<lambda>i. targets ! i) completion) = mset targets"
proof -
  have "mset (map (\<lambda>i. targets ! i) completion) = image_mset (\<lambda>i. targets ! i) (mset completion)"
    by simp
  also have "\<dots> = mset (map (\<lambda>i. targets ! i) [0..<length targets])"
    using assms by simp
  also have "\<dots> = mset targets"
    by (simp add: map_nth)
  finally show ?thesis .
qed

text \<open>
  Claim C8. In a batch of \<open>N\<close> hosts where collecting from exactly one host raises, the
  batch yields the \<open>N - 1\<close> rows of the other hosts, the failure is reported once, naming
  the failed host, and that host has no row. This holds in the sequential mode and in the
  worker-pool mode, whatever the order in which the workers finish.
\<close>

theorem one_failure_loses_one_row:
  assumes order: "mset completion = mset [0..<length targets]"
    and k: "k < length targets"
    and fails: "collect (targets ! k) = Inl e"
    and others: "\<forall>i<length targets. i \<noteq> k \<longrightarrow> \<not> isl (collect (targets ! i))"
  shows "length (fst (collect_all parallel completion collect targets)) = length targets - 1 \<and>
         snd (collect_all parallel completion collect targets) = [(targets ! k, e)] \<and>
         mset (fst (collect_all parallel completion collect targets)) =
           mset (map (\<lambda>ip. projr (collect ip)) (take k targets @ drop (Suc k) targets))"
proof -
  define visited where
    "visited = (if parallel > 1 then map (\<lambda>i. targets ! i) completion else targets)"
  define P where "P = (\<lambda>ip. isl (collect ip))"
  have res: "collect_all parallel completion collect targets =
      (map (\<lambda>ip. projr (collect ip)) (filter (\<lambda>ip. \<not> P ip) visited),
       map (\<lambda>ip. (ip, projl (collect ip))) (filter P visited))"
    by (simp add: collect_all_def visited_def foldl_collect_one P_def)
  have same: "mset visited = mset targets"
    using mset_completion_order [OF order] by (simp add: visited_def)
  have Pk: "P (targets ! k)" by (simp add: P_def fails)
  have others': "\<forall>i<length targets. i \<noteq> k \<longrightarrow> \<not> P (targets ! i)"
    using others by (simp add: P_def)
  have failing: "filter P targets = [targets ! k]"
    using k Pk others' by (rule filter_only_index(1))
  have passing: "filter (\<lambda>ip. \<not> P ip) targets = take k targets @ drop (Suc k) targets"
    using k Pk others' by (rule filter_only_index(2))
  have "mset (filter P visited) = filter_mset P (mset targets)"
    by (simp only: mset_filter same)
  also have "\<dots> = mset (filter P targets)"
    by (simp only: mset_filter)
  also have "\<dots> = {#targets ! k#}"
    by (simp add: failing)
  finally have failing': "filter P visited = [targets ! k]"
    by (rule mset_single_iff [THEN iffD1])
  have "mset (filter (\<lambda>ip. \<not> P ip) visited) = filter_mset (\<lambda>ip. \<not> P ip) (mset targets)"
    by (simp only: mset_filter same)
  also have "\<dots> = mset (filter (\<lambda>ip. \<not> P ip) targets)"
    by (simp only: mset_filter)
  finally have rows: "mset (filter (\<lambda>ip. \<not> P ip) visited) = mset (take k targets @ drop (Suc k) targets)"
    by (simp only: passing)
  have a: "mset (map (\<lambda>ip. projr (collect ip)) (filter (\<lambda>ip. \<not> P ip) visited)) =
           mset (map (\<lambda>ip. projr (collect ip)) (take k targets @ drop (Suc k) targets))"
    by (simp only: mset_map rows)
  have "length (filter (\<lambda>ip. \<not> P ip) visited) = length (take k targets @ drop (Suc k) targets)"
    using rows by (rule mset_eq_length)
  also have "\<dots> = length targets - 1"
    using k by simp
  finally have b: "length (filter (\<lambda>ip. \<not> P ip) visited) = length targets - 1" .
  have c: "map (\<lambda>ip. (ip, projl (collect ip))) (filter P visited) = [(targets ! k, e)]"
    by (simp add: failing' fails)
  show ?thesis
    unfolding res fst_conv snd_conv using a b c by simp
qed

theorem one_failure_loses_one_row_witness:
  "mset [2, 0, 1] = mset [0..<length three_hosts] \<and> (1::nat) < length three_hosts \<and>
   second_host_fails (three_hosts ! 1) = Inl (Exception ''unexpected'') \<and>
   length three_hosts = 3 \<and> \<not> isl (second_host_fails (three_hosts ! 0)) \<and>
   \<not> isl (second_host_fails (three_hosts ! 2)) \<and>
   length (fst (collect_all 4 [2, 0, 1] second_host_fails three_hosts)) = 2 \<and>
   snd (collect_all 4 [2, 0, 1] second_host_fails three_hosts) = [(''10.0.0.2'', Exception ''unexpected'')] \<and>
   length (fst (collect_all 1 [] second_host_fails three_hosts)) = 2 \<and>
   snd (collect_all 1 [2, 0, 1] second_host_fails three_hosts) = [(''10.0.0.2'', Exception ''unexpected'')]"
proof -
  have order: "mset [2, 0, 1] = mset [0..<length three_hosts]"
    by (simp add: three_hosts_def upt_rec)
  have k: "(1::nat) < length three_hosts"
    by (simp add: three_hosts_def)
  have fails: "second_host_fails (three_hosts ! 1) = Inl (Exception ''unexpected'')"
    by (simp add: three_hosts_def second_host_fails_def)
  have others: "\<forall>i<length three_hosts. i \<noteq> 1 \<longrightarrow> \<not> isl (second_host_fails (three_hosts ! i))"
    by (auto simp: three_hosts_def second_host_fails_def less_Suc_eq numeral_3_eq_3)
  have extra: "length three_hosts = 3 \<and> \<not> isl (second_host_fails (three_hosts ! 0)) \<and>
      \<not> isl (second_host_fails (three_hosts ! 2))"
    by (simp add: three_hosts_def second_host_fails_def)
  have seq: "collect_all 1 [] second_host_fails three_hosts = collect_all 1 [2, 0, 1] second_host_fails three_hosts"
    by (simp add: collect_all_def)
  from one_failure_loses_one_row [OF order k fails others, of 4]
       one_failure_loses_one_row [OF order k fails others, of 1]
       order k fails seq extra
  show ?thesis by (simp add: three_hosts_def)
qed

section \<open>The TTL of a reply\<close>

lemma map_of_dict_set: "map_of (dict_set d k v) = (map_of d)(k \<mapsto> v)"
  by (simp add: dict_set_def update_conv')

lemma rtt_loop_cases:
  "rtt_loop ps output features = Inr f \<Longrightarrow>
   f = features \<or> (\<exists>v. f = dict_set features ''avg_latency'' (FloatV v))"
  by (induction ps) (auto simp: bind_err_def split: option.splits sum.splits)

lemma parse_ping_shape:
  assumes "parse_ping output = Inr pf"
  shows "\<exists>a l t r. pf = [(''avg_latency'', a), (''packet_loss'', l), (''ttl_return'', t),
                          (''icmp_reachable'', r)] \<and> (t \<noteq> StrV [] \<longrightarrow> r = IntV 1)"
  using assms
  by (auto simp: parse_ping_def bind_err_def Let_def dict_set_def ping_defaults_def
           split: option.splits if_splits sum.splits dest!: rtt_loop_cases)


lemma map_of_dict_update_other:
  "k \<notin> fst ` set e \<Longrightarrow> map_of (dict_update d e) k = map_of d k"
proof (induction e arbitrary: d)
  case Nil
  then show ?case by (simp add: dict_update_def)
next
  case (Cons kv e)
  have "dict_update d (kv # e) = dict_update (AList.update (fst kv) (snd kv) d) e"
    by (simp add: dict_update_def)
  with Cons show ?case by (simp add: update_conv')
qed

lemma parse_nmap_keys:
  "parse_nmap output = Inr nf \<Longrightarrow> fst ` set nf = {''filtered_ports_count'', ''scan_time''}"
  by (auto simp: parse_nmap_def bind_err_def Let_def dict_set_def
           split: option.splits if_splits sum.splits)

lemma parse_curl_keys: "fst ` set (parse_curl output) = {''header_modified''}"
  by (auto simp: parse_curl_def Let_def split: option.splits)

lemma lower_char_ttl [simp]:
  "lower_char (CHR ''t'') = CHR ''t''" "lower_char (CHR ''l'') = CHR ''l''"
  "lower_char (CHR ''='') = CHR ''=''"
  by (simp_all add: lower_char_def)

lemma star_digit_close:
  assumes "\<forall>c \<in> set ds. is_digit c" and "post = [] \<or> \<not> is_digit (hd post)"
  shows "rmatch ic [Star Digit, GClose] bol (ds @ post) = Some (post, None, Some post)"
  using assms
proof (induction ds arbitrary: bol)
  case Nil
  then show ?case by (cases post) (simp_all add: set_close_def)
next
  case (Cons d ds)
  then show ?case by simp
qed

lemma ttl_items_match:
  assumes "ds \<noteq> []" and "\<forall>c \<in> set ds. is_digit c" and "post = [] \<or> \<not> is_digit (hd post)"
  shows "rmatch True (lits ''ttl='' @ [GOpen, Plus Digit, GClose]) bol (''ttl='' @ ds @ post) =
           Some (post, Some (ds @ post), Some post)"
proof -
  obtain d ds' where ds: "ds = d # ds'" using assms(1) by (cases ds) auto
  have "rmatch True [Star Digit, GClose] (d = newline) (ds' @ post) = Some (post, None, Some post)"
    using assms(2,3) by (intro star_digit_close) (simp_all add: ds)
  then show ?thesis
    using assms(2) by (simp add: lits_def ds set_open_def)
qed

lemma ttl_items_no_match:
  assumes "\<not> ttl_marker_at s"
  shows "rmatch True (lits ''ttl='' @ [GOpen, Plus Digit, GClose]) bol s = None"
proof -
  consider "s = []" | a where "s = [a]" | a b where "s = [a, b]" | a b c where "s = [a, b, c]"
    | a b c d where "s = [a, b, c, d]" | a b c d e rest where "s = a # b # c # d # e # rest"
    by (metis list.exhaust)
  then show ?thesis
    using assms
    by cases (auto simp: lits_def ttl_marker_at_def lower_def)
qed

lemma search_ttl:
  assumes "ds \<noteq> []" and "\<forall>c \<in> set ds. is_digit c" and "post = [] \<or> \<not> is_digit (hd post)"
    and "\<forall>i<length pre. \<not> ttl_marker_at (drop i (pre @ ''ttl='' @ ds @ post))"
  shows "search_from ttl_pattern bol (pre @ ''ttl='' @ ds @ post) =
           Some (post, Some (ds @ post), Some post)"
  using assms(4)
proof (induction pre arbitrary: bol)
  case Nil
  have "match_alts True [lits ''ttl='' @ [GOpen, Plus Digit, GClose]] bol (''ttl='' @ ds @ post) =
          Some (post, Some (ds @ post), Some post)"
    using ttl_items_match [OF assms(1-3)] by simp
  then show ?case by (simp add: ttl_pattern_def)
next
  case (Cons x pre)
  from Cons.prems have "\<not> ttl_marker_at (drop 0 ((x # pre) @ ''ttl='' @ ds @ post))"
    by blast
  then have "match_alts True [lits ''ttl='' @ [GOpen, Plus Digit, GClose]] bol (x # pre @ ''ttl='' @ ds @ post) = None"
    using ttl_items_no_match by simp
  moreover have "\<forall>i<length pre. \<not> ttl_marker_at (drop i (pre @ ''ttl='' @ ds @ post))"
  proof (intro allI impI)
    fix i assume "i < length pre"
    then have "Suc i < length (x # pre)" by simp
    with Cons.prems have "\<not> ttl_marker_at (drop (Suc i) ((x # pre) @ ''ttl='' @ ds @ post))" by blast
    then show "\<not> ttl_marker_at (drop i (pre @ ''ttl='' @ ds @ post))" by simp
  qed
  ultimately show ?case
    using Cons.IH by (simp add: ttl_pattern_def)
qed

lemma parse_ping_reply_line_value:
  "parse_ping (Some ping_reply_line) =
     Inr [(''avg_latency'', StrV []), (''packet_loss'', StrV []), (''ttl_return'', IntV 64),
          (''icmp_reachable'', IntV 1)]"
  by code_simp

text \<open>
  Claim C4, as stated, fails: the text "ttl=64" contains the TTL marker \<open>ttl=64\<close>, with 64
  between 1 and 255, and \<open>parse_ping\<close> does not set \<open>ttl_return\<close> to 64. It leaves it
  empty, the text holding no reply marker.
\<close>

theorem parse_ping_ttl_without_reply_counterexample:
  "py_in ''ttl=64'' ''ttl=64'' \<and> (1::int) \<le> 64 \<and> (64::int) \<le> 255 \<and>
   returned_item (parse_ping (Some ''ttl=64'')) ''ttl_return'' \<noteq> Some (IntV 64)"
  by code_simp

text \<open>
  Why the amended claim speaks of the first marker, of the digits not being followed by
  a digit, and of \<open>parse_ping\<close> returning: a second marker is ignored, digits after the
  marker belong to the number, and a malformed round-trip figure makes \<^verbatim>\<open>float\<close> raise.
\<close>

lemma parse_ping_ttl_other_cases:
  "returned_item (parse_ping (Some ''icmp_seq=1 ttl=128 ttl=64'')) ''ttl_return'' = Some (IntV 128)"
  "returned_item (parse_ping (Some ''icmp_seq=1 ttl=645'')) ''ttl_return'' = Some (IntV 645)"
  "parse_ping (Some ''icmp_seq=1 ttl=64 rtt = 1/2.3.4/'') = Inl ValueError"
  by code_simp+

lemma digit_char:
  assumes "m < 10"
  shows "is_digit (''0123456789'' ! m)" and "digit_val (''0123456789'' ! m) = int m"
proof -
  from assms have "m = 0 \<or> m = 1 \<or> m = 2 \<or> m = 3 \<or> m = 4 \<or> m = 5 \<or> m = 6 \<or> m = 7 \<or> m = 8 \<or> m = 9"
    by presburger
  then have "is_digit (''0123456789'' ! m) \<and> digit_val (''0123456789'' ! m) = int m"
    by (elim disjE) (simp_all add: is_digit_def digit_val_def)
  then show "is_digit (''0123456789'' ! m)" and "digit_val (''0123456789'' ! m) = int m"
    by simp_all
qed

lemma digits_val_snoc: "digits_val (ds @ [c]) = 10 * digits_val ds + digit_val c"
  by (simp add: digits_val_def)

lemma digits_of_correct:
  "0 \<le> n \<Longrightarrow> digits_of n \<noteq> [] \<and> (\<forall>c \<in> set (digits_of n). is_digit c) \<and> digits_val (digits_of n) = n"
proof (induction n rule: digits_of.induct)
  case (1 n)
  show ?case
  proof (cases "n < 10")
    case True
    with 1 have "nat n < 10" by simp
    from digit_char [OF this] True 1(2) show ?thesis
      by (simp add: digits_of.simps [of n] digits_val_def)
  next
    case False
    with 1 have ih: "digits_of (n div 10) \<noteq> [] \<and> (\<forall>c \<in> set (digits_of (n div 10)). is_digit c) \<and>
        digits_val (digits_of (n div 10)) = n div 10"
      by simp
    have "nat (n mod 10) < 10" by simp
    from digit_char [OF this] have d: "is_digit (''0123456789'' ! nat (n mod 10))"
      "digit_val (''0123456789'' ! nat (n mod 10)) = n mod 10" by simp_all
    have eq: "digits_of n = digits_of (n div 10) @ [''0123456789'' ! nat (n mod 10)]"
      using False by (simp add: digits_of.simps [of n])
    show ?thesis
      unfolding eq using ih d by (simp add: digits_val_snoc)
  qed
qed

lemma parse_ping_ttl_value:
  assumes "parse_ping (Some out) = Inr f" and "out \<noteq> []"
    and "py_in ''bytes from'' (lower out) \<or> py_in ''icmp_seq='' (lower out)"
    and "re_search ttl_pattern out = Some m"
  shows "map_of f ''ttl_return'' = Some (IntV (py_int (group1 m)))"
  using assms
  by (auto simp: parse_ping_def bind_err_def Let_def dict_set_def ping_defaults_def
           split: option.splits if_splits sum.splits dest!: rtt_loop_cases)

text \<open>
  Claim C4, amended. Let the ping output contain a reply marker ("bytes from" or
  "icmp_seq=", in any letter case), let its first TTL marker be \<open>ttl=N\<close>, the digits of
  \<open>N\<close> not followed by a further digit, and let \<open>parse_ping\<close> return. Then \<open>ttl_return\<close> is
  exactly \<open>N\<close>, for every \<open>N\<close> from 0 on, hence for 1 to 255.
\<close>

theorem parse_ping_first_ttl_marker:
  assumes reply: "py_in ''bytes from'' (lower output) \<or> py_in ''icmp_seq='' (lower output)"
    and marker: "output = pre @ ''ttl='' @ str_int N @ post"
    and range: "0 \<le> N"
    and first: "\<forall>i<length pre. \<not> ttl_marker_at (drop i output)"
    and delimited: "post = [] \<or> \<not> is_digit (hd post)"
    and returns: "parse_ping (Some output) = Inr features"
  shows "map_of features ''ttl_return'' = Some (IntV N)"
proof -
  let ?ds = "digits_of N"
  from digits_of_correct [OF range] have ds: "?ds \<noteq> []" "\<forall>c \<in> set ?ds. is_digit c"
    and val: "digits_val ?ds = N" by simp_all
  have out: "output = pre @ ''ttl='' @ ?ds @ post"
    using marker range by (simp add: str_int_def)
  have "search_from ttl_pattern True (pre @ ''ttl='' @ ?ds @ post) = Some (post, Some (?ds @ post), Some post)"
    using ds delimited first unfolding out by (rule search_ttl)
  then have found: "re_search ttl_pattern output = Some (post, Some (?ds @ post), Some post)"
    by (simp add: re_search_def out)
  have "output \<noteq> []" by (simp add: out)
  from parse_ping_ttl_value [OF returns this reply found]
  show ?thesis by (simp add: py_int_def val)
qed

lemma all_below_list_all: "(\<forall>i<n. P i) = list_all P [0..<n]"
  by (auto simp: list_all_iff)

theorem parse_ping_first_ttl_marker_witness:
  "(py_in ''bytes from'' (lower ping_reply_line) \<or> py_in ''icmp_seq='' (lower ping_reply_line)) \<and>
   ping_reply_line = reply_line_prefix @ ''ttl='' @ str_int 64 @ reply_line_suffix \<and>
   (0::int) \<le> 64 \<and>
   list_all (\<lambda>i. \<not> ttl_marker_at (drop i ping_reply_line)) [0..<length reply_line_prefix] \<and>
   \<not> is_digit (hd reply_line_suffix) \<and>
   parse_ping (Some ping_reply_line) =
     Inr [(''avg_latency'', StrV []), (''packet_loss'', StrV []), (''ttl_return'', IntV 64),
          (''icmp_reachable'', IntV 1)] \<and>
   map_of [(''avg_latency'', StrV []), (''packet_loss'', StrV []), (''ttl_return'', IntV 64),
           (''icmp_reachable'', IntV 1)] ''ttl_return'' = Some (IntV 64)"
proof -
  have reply: "py_in ''bytes from'' (lower ping_reply_line) \<or> py_in ''icmp_seq='' (lower ping_reply_line)"
    by code_simp
  have marker: "ping_reply_line = reply_line_prefix @ ''ttl='' @ str_int 64 @ reply_line_suffix"
    by code_simp
  have range: "(0::int) \<le> 64" by simp
  have "list_all (\<lambda>i. \<not> ttl_marker_at (drop i ping_reply_line)) [0..<length reply_line_prefix]"
    by code_simp
  then have first: "\<forall>i<length reply_line_prefix. \<not> ttl_marker_at (drop i ping_reply_line)"
    by (simp only: all_below_list_all)
  have no_digit: "\<not> is_digit (hd reply_line_suffix)"
    by code_simp
  then have delimited: "reply_line_suffix = [] \<or> \<not> is_digit (hd reply_line_suffix)"
    by simp
  from parse_ping_first_ttl_marker [OF reply marker range first delimited parse_ping_reply_line_value]
       reply marker range first no_digit parse_ping_reply_line_value
  show ?thesis by (simp add: all_below_list_all)
qed

section \<open>The TTL and reachability in the finished row\<close>

lemma collect_l3_ttl:
  assumes "collect_l3 w ip debug features = Inr f"
  shows "\<exists>t r. map_of f ''ttl_return'' = Some t \<and> map_of f ''icmp_reachable'' = Some r \<and>
               (t \<noteq> StrV [] \<longrightarrow> r = IntV 1)"
proof -
  obtain pf where pf: "parse_ping (run_command (subprocess_run w) [''ping'', ''-c'', ''5'', ip] 10 debug) = Inr pf"
    and rest: "f = dict_update features pf \<or> (\<exists>v. f = dict_set (dict_update features pf) ''packet_loss'' v)"
    using assms
    by (auto simp: collect_l3_def bind_err_def Let_def split: sum.splits if_splits)
  from parse_ping_shape [OF pf] obtain a l t r where
    shape: "pf = [(''avg_latency'', a), (''packet_loss'', l), (''ttl_return'', t), (''icmp_reachable'', r)]"
    and ok: "t \<noteq> StrV [] \<longrightarrow> r = IntV 1" by blast
  have "map_of (dict_update features pf) ''ttl_return'' = Some t"
    and "map_of (dict_update features pf) ''icmp_reachable'' = Some r"
    by (simp_all add: shape dict_update_def update_conv')
  with rest ok show ?thesis
    by (auto simp: map_of_dict_set)
qed

lemma l3_key_not_others:
  "l3_key k \<Longrightarrow> k \<noteq> ''syn_ack_ratio'' \<and> k \<noteq> ''tcp_reset_ratio'' \<and> k \<noteq> ''filtered_ports_count'' \<and>
     k \<noteq> ''scan_time'' \<and> k \<noteq> ''response_time'' \<and> k \<noteq> ''header_modified'' \<and>
     k \<noteq> ''firewall_label'' \<and> k \<noteq> ''packet_loss'' \<and> k \<noteq> ''avg_latency''"
  by (auto simp: l3_key_def)

lemma collect_l4_other:
  assumes run: "collect_l4 w ip debug features = Inr f" and key: "l3_key k"
  shows "map_of f k = map_of features k"
proof -
  obtain nf a b where nf: "parse_nmap (run_command (subprocess_run w)
        [''nmap'', ''-sS'', ''-p'', ''1-1024'', ip, ''-oN'', ''-''] 120 debug) = Inr nf"
    and f: "f = dict_set (dict_set (dict_update features nf) ''syn_ack_ratio'' (FloatV a))
                  ''tcp_reset_ratio'' (FloatV b)"
    using run unfolding collect_l4_def Let_def bind_err_def
    by (auto split: sum.splits)
  have "k \<notin> fst ` set nf"
    using parse_nmap_keys [OF nf] l3_key_not_others [OF key] by simp
  then have "map_of (dict_update features nf) k = map_of features k"
    by (rule map_of_dict_update_other)
  then show ?thesis
    using l3_key_not_others [OF key] by (simp add: f map_of_dict_set)
qed

lemma proxy_sweep_other:
  assumes key: "l3_key k"
  shows "map_of (proxy_sweep w ip debug ports features) k = map_of features k"
proof (induction ports)
  case Nil
  show ?case by simp
next
  case (Cons port ports)
  show ?case
    using l3_key_not_others [OF key]
    by (simp add: Let_def Cons.IH map_of_dict_set split: option.split)
qed

lemma collect_l7_other:
  assumes run: "collect_l7 w ip debug features = Inr f" and key: "l3_key k"
  shows "map_of f k = map_of features k"
proof -
  define f1 where "f1 =
     (case measure_curl_time w ip 5 of
        Some response_time \<Rightarrow>
          if response_time \<noteq> 0 then dict_set features ''response_time'' (FloatV response_time)
          else features
      | None \<Rightarrow> features)"
  define curl_output where "curl_output = run_command (subprocess_run w)
       [''curl'', ''-s'', ''-I'', ''-H'', ''X-AIFW-Test: 1'', ''--max-time'', ''5'', ''http://'' @ ip] 8 debug"
  define f2 where "f2 = (if no_output curl_output then f1 else dict_update f1 (parse_curl curl_output))"
  define f3 where "f3 = dict_set f2 ''header_modified''
                          (py_or (dict_get f2 ''header_modified'' NoneV) (IntV 0))"
  have others: "k \<noteq> ''response_time''" "k \<noteq> ''header_modified''"
    using l3_key_not_others [OF key] by simp_all
  have k1: "map_of f1 k = map_of features k"
    using others by (simp add: f1_def map_of_dict_set split: option.split)
  have "k \<notin> fst ` set (parse_curl curl_output)"
    using others by (simp add: parse_curl_keys)
  then have k2: "map_of f2 k = map_of f1 k"
    by (simp add: f2_def map_of_dict_update_other)
  have k3: "map_of f3 k = map_of f2 k"
    using others by (simp add: f3_def map_of_dict_set)
  have "collect_l7 w ip debug features =
          bind_err (dict_item f3 ''header_modified'') (\<lambda>header_modified.
            if py_eq header_modified (IntV 0)
            then Inr (proxy_sweep w ip debug [3128, 8080, 8888] f3)
            else Inr f3)"
    unfolding collect_l7_def Let_def f3_def f2_def curl_output_def f1_def ..
  with run have "f = proxy_sweep w ip debug [3128, 8080, 8888] f3 \<or> f = f3"
    by (auto simp: bind_err_def split: sum.splits if_splits)
  then have "map_of f k = map_of f3 k"
  proof
    assume "f = proxy_sweep w ip debug [3128, 8080, 8888] f3"
    then show ?thesis by (simp only: proxy_sweep_other [OF key])
  next
    assume "f = f3"
    then show ?thesis by simp
  qed
  then show ?thesis by (simp add: k1 k2 k3)
qed

lemma format_fields_other:
  "format_fields w formats features = Inr f \<Longrightarrow> k \<notin> fst ` set formats \<Longrightarrow>
   map_of f k = map_of features k"
proof (induction formats arbitrary: features)
  case Nil
  then show ?case by simp
next
  case (Cons fd formats)
  obtain field decimals where fd: "fd = (field, decimals)" by (cases fd)
  from Cons.prems have k: "k \<noteq> field" "k \<notin> fst ` set formats" by (auto simp: fd)
  from Cons.prems(1) consider
      "format_fields w formats features = Inr f"
    | x where "format_fields w formats (dict_set features field (FloatV x)) = Inr f"
    by (auto simp: fd bind_err_def split: sum.splits if_splits)
  then show ?case
  proof cases
    case 1
    then show ?thesis using Cons.IH k by blast
  next
    case 2
    then have "map_of f k = map_of (dict_set features field (FloatV x)) k"
      using Cons.IH k by blast
    then show ?thesis using k by (simp add: map_of_dict_set)
  qed
qed

lemma apply_label_other:
  "l3_key k \<Longrightarrow> map_of (apply_label w ip features) k = map_of features k"
  using l3_key_not_others [of k]
  by (simp add: apply_label_def map_of_dict_set split: option.split)

text \<open>
  Claim C10. In every feature map \<open>parse_ping\<close> returns, and in every row
  \<open>collect_features\<close> returns, \<open>ttl_return\<close> and \<open>icmp_reachable\<close> are present and a
  \<open>ttl_return\<close> that is not empty comes with \<open>icmp_reachable = 1\<close>: the TTL is read only
  in the branch that has found a reply marker, and no later phase touches either field.
\<close>

theorem ttl_only_when_reachable:
  "(parse_ping ping_output = Inr features \<longrightarrow>
      (\<exists>t r. map_of features ''ttl_return'' = Some t \<and> map_of features ''icmp_reachable'' = Some r \<and>
             (t \<noteq> StrV [] \<longrightarrow> r = IntV 1))) \<and>
   (collect_features w ip debug = Inr row \<longrightarrow>
      (\<exists>t r. map_of row ''ttl_return'' = Some t \<and> map_of row ''icmp_reachable'' = Some r \<and>
             (t \<noteq> StrV [] \<longrightarrow> r = IntV 1)))"
proof (intro conjI impI)
  assume "parse_ping ping_output = Inr features"
  from parse_ping_shape [OF this]
  show "\<exists>t r. map_of features ''ttl_return'' = Some t \<and> map_of features ''icmp_reachable'' = Some r \<and>
             (t \<noteq> StrV [] \<longrightarrow> r = IntV 1)"
    by auto
next
  assume "collect_features w ip debug = Inr row"
  then obtain f3 f4 f7 ff where
    f3: "collect_l3 w ip debug (init_features w ip) = Inr f3"
    and f4: "collect_l4 w ip debug f3 = Inr f4"
    and f7: "collect_l7 w ip debug f4 = Inr f7"
    and ff: "format_fields w decimal_formats f7 = Inr ff"
    and row: "row = apply_label w ip ff"
    unfolding collect_features_def bind_err_def
    by (auto split: sum.splits)
  have keep: "map_of row k = map_of f3 k" if "l3_key k" for k
  proof -
    have "k \<notin> fst ` set decimal_formats"
      using l3_key_not_others [OF that] by (simp add: decimal_formats_def)
    with ff have "map_of ff k = map_of f7 k"
      by (rule format_fields_other)
    then show ?thesis
      using that by (simp add: row apply_label_other collect_l7_other [OF f7] collect_l4_other [OF f4])
  qed
  have "l3_key ''ttl_return''" "l3_key ''icmp_reachable''" by (simp_all add: l3_key_def)
  then have "map_of row ''ttl_return'' = map_of f3 ''ttl_return''"
    and "map_of row ''icmp_reachable'' = map_of f3 ''icmp_reachable''"
    by (simp_all only: keep)
  with collect_l3_ttl [OF f3]
  show "\<exists>t r. map_of row ''ttl_return'' = Some t \<and> map_of row ''icmp_reachable'' = Some r \<and>
             (t \<noteq> StrV [] \<longrightarrow> r = IntV 1)"
    by simp
qed

lemma ping_only_row:
  "collect_features ping_only ''10.0.0.1'' False =
     Inr [(''timestamp'', IntV 1700000000), (''host'', StrV ''10.0.0.1''),
          (''avg_latency'', FloatV 2.345), (''packet_loss'', FloatV 0),
          (''ttl_return'', IntV 64), (''icmp_reachable'', IntV 1),
          (''filtered_ports_count'', IntV 0), (''scan_time'', StrV []),
          (''syn_ack_ratio'', FloatV 0), (''tcp_reset_ratio'', FloatV 0),
          (''response_time'', StrV []), (''header_modified'', IntV 0),
          (''firewall_label'', IntV 2)]"
  by code_simp

theorem ttl_only_when_reachable_witness:
  "parse_ping (Some ping_reply_line) =
     Inr [(''avg_latency'', StrV []), (''packet_loss'', StrV []), (''ttl_return'', IntV 64),
          (''icmp_reachable'', IntV 1)] \<and>
   returned_item (parse_ping (Some ping_reply_line)) ''ttl_return'' = Some (IntV 64) \<and>
   IntV 64 \<noteq> StrV [] \<and>
   returned_item (parse_ping (Some ping_reply_line)) ''icmp_reachable'' = Some (IntV 1) \<and>
   returned_item (collect_features ping_only ''10.0.0.1'' False) ''ttl_return'' = Some (IntV 64) \<and>
   returned_item (collect_features ping_only ''10.0.0.1'' False) ''icmp_reachable'' = Some (IntV 1)"
  using ttl_only_when_reachable [where ping_output = "Some ping_reply_line"
          and features = "[(''avg_latency'', StrV []), (''packet_loss'', StrV []),
                           (''ttl_return'', IntV 64), (''icmp_reachable'', IntV 1)]"
          and w = ping_only and ip = "''10.0.0.1''" and debug = False
          and row = "[(''timestamp'', IntV 1700000000), (''host'', StrV ''10.0.0.1''),
          (''avg_latency'', FloatV 2.345), (''packet_loss'', FloatV 0),
          (''ttl_return'', IntV 64), (''icmp_reachable'', IntV 1),
          (''filtered_ports_count'', IntV 0), (''scan_time'', StrV []),
          (''syn_ack_ratio'', FloatV 0), (''tcp_reset_ratio'', FloatV 0),
          (''response_time'', StrV []), (''header_modified'', IntV 0),
          (''firewall_label'', IntV 2)]"]
        parse_ping_reply_line_value ping_only_row
  by (simp add: returned_item_def)

end
